theory Spec2Isabelle
  imports Main "HOL-Library.Sublist" "HOL-Library.Monad_Syntax"
begin

section \<open>ECMAScript values used by the parser\<close>

text \<open>
  The parser (\<^verbatim>\<open>src/chrono/parser.ts\<close>) is TypeScript. The parts of the language's
  runtime that it calls are modelled here after ECMA-262: numbers restricted to the
  integral values (exact in a double below \<open>2 ^ 53\<close>) together with \<open>NaN\<close>, the time
  value of a \<^verbatim>\<open>Date\<close>, the UTC field getters, \<^verbatim>\<open>String(n)\<close> and \<^verbatim>\<open>padStart\<close>.
\<close>

datatype number = NaN | Num int

fun num_add :: "number \<Rightarrow> number \<Rightarrow> number" where
  "num_add (Num a) (Num b) = Num (a + b)"
| "num_add _ _ = NaN"

text \<open>A \<^verbatim>\<open>Date\<close> object holds a time value: milliseconds since the epoch, or \<open>NaN\<close>.\<close>

datatype Date = Date (getTime: number)

definition maxTimeValue :: int where
  "maxTimeValue = 8640000000000000"

text \<open>\<^verbatim>\<open>new Date(v)\<close> on a number applies TimeClip.\<close>

fun new_Date :: "number \<Rightarrow> Date" where
  "new_Date NaN = Date NaN"
| "new_Date (Num v) = (if \<bar>v\<bar> > maxTimeValue then Date NaN else Date (Num v))"

subsection \<open>Calendar arithmetic of ECMA-262 (section "Time Values and Time Range")\<close>

definition msPerDay :: int where
  "msPerDay = 86400000"

definition Day :: "int \<Rightarrow> int" where
  "Day t = t div msPerDay"

definition DaysInYear :: "int \<Rightarrow> int" where
  "DaysInYear y =
     (if y mod 4 \<noteq> 0 then 365
      else if y mod 100 \<noteq> 0 then 366
      else if y mod 400 \<noteq> 0 then 365
      else 366)"

definition DayFromYear :: "int \<Rightarrow> int" where
  "DayFromYear y =
     365 * (y - 1970) + (y - 1969) div 4 - (y - 1901) div 100 + (y - 1601) div 400"

text \<open>
  ECMA-262 defines the year of a time value as the largest \<open>y\<close> whose first day is not
  after it. \<open>YearFromDay\<close> computes it: an estimate from the mean length of a year,
  corrected by at most one (lemma \<open>YearFromDay_bounds\<close> below shows it meets the
  defining property).
\<close>

definition YearFromDay :: "int \<Rightarrow> int" where
  "YearFromDay d =
     (let y = 1970 + (400 * d) div 146097
      in if DayFromYear (y + 1) \<le> d then y + 1
         else if d < DayFromYear y then y - 1
         else y)"

definition YearFromTime :: "int \<Rightarrow> int" where
  "YearFromTime t = YearFromDay (Day t)"

definition InLeapYear :: "int \<Rightarrow> int" where
  "InLeapYear t = (if DaysInYear (YearFromTime t) = 366 then 1 else 0)"

definition DayWithinYear :: "int \<Rightarrow> int" where
  "DayWithinYear t = Day t - DayFromYear (YearFromTime t)"

text \<open>First day (within the year) of month \<open>m\<close> (0 = January), \<open>l\<close> the leap-year flag.\<close>

definition monthStart :: "int \<Rightarrow> int \<Rightarrow> int" where
  "monthStart l m =
     (if m = 0 then 0 else if m = 1 then 31 else if m = 2 then 59 + l
      else if m = 3 then 90 + l else if m = 4 then 120 + l else if m = 5 then 151 + l
      else if m = 6 then 181 + l else if m = 7 then 212 + l else if m = 8 then 243 + l
      else if m = 9 then 273 + l else if m = 10 then 304 + l else 334 + l)"

definition MonthFromDay :: "int \<Rightarrow> int \<Rightarrow> int" where
  "MonthFromDay l d =
     (if d < 31 then 0 else if d < 59 + l then 1 else if d < 90 + l then 2
      else if d < 120 + l then 3 else if d < 151 + l then 4 else if d < 181 + l then 5
      else if d < 212 + l then 6 else if d < 243 + l then 7 else if d < 273 + l then 8
      else if d < 304 + l then 9 else if d < 334 + l then 10 else 11)"

definition MonthFromTime :: "int \<Rightarrow> int" where
  "MonthFromTime t = MonthFromDay (InLeapYear t) (DayWithinYear t)"

definition DateFromTime :: "int \<Rightarrow> int" where
  "DateFromTime t =
     DayWithinYear t - monthStart (InLeapYear t) (MonthFromTime t) + 1"

definition HourFromTime :: "int \<Rightarrow> int" where
  "HourFromTime t = (t div 3600000) mod 24"

definition MinFromTime :: "int \<Rightarrow> int" where
  "MinFromTime t = (t div 60000) mod 60"

definition SecFromTime :: "int \<Rightarrow> int" where
  "SecFromTime t = (t div 1000) mod 60"

definition msFromTime :: "int \<Rightarrow> int" where
  "msFromTime t = t mod 1000"

text \<open>The getters of \<^verbatim>\<open>Date.prototype\<close>: \<open>NaN\<close> on an invalid date.\<close>

fun getUTCFullYear :: "Date \<Rightarrow> number" where
  "getUTCFullYear (Date NaN) = NaN"
| "getUTCFullYear (Date (Num t)) = Num (YearFromTime t)"

fun getUTCMonth :: "Date \<Rightarrow> number" where
  "getUTCMonth (Date NaN) = NaN"
| "getUTCMonth (Date (Num t)) = Num (MonthFromTime t)"

fun getUTCDate :: "Date \<Rightarrow> number" where
  "getUTCDate (Date NaN) = NaN"
| "getUTCDate (Date (Num t)) = Num (DateFromTime t)"

fun getUTCHours :: "Date \<Rightarrow> number" where
  "getUTCHours (Date NaN) = NaN"
| "getUTCHours (Date (Num t)) = Num (HourFromTime t)"

fun getUTCMinutes :: "Date \<Rightarrow> number" where
  "getUTCMinutes (Date NaN) = NaN"
| "getUTCMinutes (Date (Num t)) = Num (MinFromTime t)"

fun getUTCSeconds :: "Date \<Rightarrow> number" where
  "getUTCSeconds (Date NaN) = NaN"
| "getUTCSeconds (Date (Num t)) = Num (SecFromTime t)"

fun getUTCMilliseconds :: "Date \<Rightarrow> number" where
  "getUTCMilliseconds (Date NaN) = NaN"
| "getUTCMilliseconds (Date (Num t)) = Num (msFromTime t)"

subsection \<open>Number to string, padding\<close>

definition digit_char :: "nat \<Rightarrow> char" where
  "digit_char n = ''0123456789'' ! (n mod 10)"

fun string_of_nat :: "nat \<Rightarrow> string" where
  "string_of_nat n =
     (if n < 10 then [digit_char n] else string_of_nat (n div 10) @ [digit_char n])"

declare string_of_nat.simps [simp del]

text \<open>\<^verbatim>\<open>String(n)\<close>, also what a template literal does to a number.\<close>

fun String_of :: "number \<Rightarrow> string" where
  "String_of NaN = ''NaN''"
| "String_of (Num i) =
     (if i < 0 then CHR ''-'' # string_of_nat (nat (- i)) else string_of_nat (nat i))"

text \<open>\<^verbatim>\<open>s.padStart(n, c)\<close> for a one-character filler: never shortens \<open>s\<close>.\<close>

definition padStart :: "nat \<Rightarrow> char \<Rightarrow> string \<Rightarrow> string" where
  "padStart n c s = replicate (n - length s) c @ s"

section \<open>The parser: \<^verbatim>\<open>src/chrono/parser.ts\<close>\<close>

subsection \<open>\<^verbatim>\<open>toISOWithOffset\<close>\<close>

definition toISOWithOffset :: "Date \<Rightarrow> int \<Rightarrow> string" where
  "toISOWithOffset date offsetMinutes =
     (let utcTime = getTime date;
          localTime = new_Date (num_add utcTime (Num (offsetMinutes * 60 * 1000)));
          year = getUTCFullYear localTime;
          month = padStart 2 (CHR ''0'') (String_of (num_add (getUTCMonth localTime) (Num 1)));
          day = padStart 2 (CHR ''0'') (String_of (getUTCDate localTime));
          hour = padStart 2 (CHR ''0'') (String_of (getUTCHours localTime));
          minute = padStart 2 (CHR ''0'') (String_of (getUTCMinutes localTime));
          second = padStart 2 (CHR ''0'') (String_of (getUTCSeconds localTime));
          ms = padStart 3 (CHR ''0'') (String_of (getUTCMilliseconds localTime));
          sign = (if offsetMinutes \<ge> 0 then ''+'' else ''-'');
          absOffset = \<bar>offsetMinutes\<bar>;
          offsetHours = padStart 2 (CHR ''0'') (String_of (Num (absOffset div 60)));
          offsetMins = padStart 2 (CHR ''0'') (String_of (Num (absOffset mod 60)))
      in String_of year @ ''-'' @ month @ ''-'' @ day @ ''T'' @ hour @ '':'' @ minute
           @ '':'' @ second @ ''.'' @ ms @ sign @ offsetHours @ '':'' @ offsetMins)"

subsection \<open>Values that arrive from the JSON request\<close>

text \<open>
  \<^verbatim>\<open>parseDateTime\<close> tests its \<^verbatim>\<open>text\<close> and \<^verbatim>\<open>mode\<close> fields at run time, so these two are
  modelled as untyped values; the other fields are taken at their declared types, an
  absent field (\<^verbatim>\<open>undefined\<close>) being \<open>None\<close>. Strings are lists of code units below 256.
\<close>

datatype js_value =
    JUndefined | JNull | JBool bool | JNumber number | JString string | JObject

fun truthy :: "js_value \<Rightarrow> bool" where
  "truthy JUndefined = False"
| "truthy JNull = False"
| "truthy (JBool b) = b"
| "truthy (JNumber NaN) = False"
| "truthy (JNumber (Num n)) = (n \<noteq> 0)"
| "truthy (JString s) = (s \<noteq> [])"
| "truthy JObject = True"

fun typeof :: "js_value \<Rightarrow> string" where
  "typeof JUndefined = ''undefined''"
| "typeof JNull = ''object''"
| "typeof (JBool b) = ''boolean''"
| "typeof (JNumber n) = ''number''"
| "typeof (JString s) = ''string''"
| "typeof JObject = ''object''"

fun string_value :: "js_value \<Rightarrow> string" where
  "string_value (JString s) = s"
| "string_value _ = []"

text \<open>White space and line terminators among the code units below 256.\<close>

definition isWhiteSpace :: "char \<Rightarrow> bool" where
  "isWhiteSpace c = (c \<in> set [CHR 0x09, CHR 0x0A, CHR 0x0B, CHR 0x0C, CHR 0x0D, CHR 0x20, CHR 0xA0])"

definition trim :: "string \<Rightarrow> string" where
  "trim s = rev (dropWhile isWhiteSpace (rev (dropWhile isWhiteSpace s)))"

text \<open>
  What a \<^verbatim>\<open>throw\<close> carries: an \<^verbatim>\<open>Error\<close> object with its message, or any other value
  (the grammar library may throw anything).
\<close>

datatype thrown = Error string | NonError

subsection \<open>The types of \<^verbatim>\<open>src/chrono/types.ts\<close>\<close>

record ChronoParseInput =
  in_text :: js_value
  reference :: "string option"
  timezone_offset :: "int option"
  forwardOnly :: "bool option"
  mode :: js_value

record ParsedDateTime =
  iso :: string
  unix :: number
  timezoneOffset :: "number option"
  certain :: "string list"
  implied :: "string list"

record ParseResult =
  res_text :: string
  isRange :: bool
  res_start :: ParsedDateTime
  res_end :: "ParsedDateTime option"

record ChronoParseOutput =
  results :: "ParseResult list"
  summary :: string

subsection \<open>The interface of the grammar library (chrono-node)\<close>

text \<open>
  The library is not part of the repository; the parser uses three methods of its
  \<^verbatim>\<open>ParsedComponents\<close> (\<^verbatim>\<open>isCertain\<close>, \<^verbatim>\<open>get\<close>, which is \<^verbatim>\<open>null\<close> for a field without a value,
  and \<^verbatim>\<open>date\<close>), three fields of a \<^verbatim>\<open>ParsedResult\<close>, and \<^verbatim>\<open>chrono.parse\<close>, which is a
  parameter of everything below.
\<close>

record ParsedComponents =
  isCertain :: "string \<Rightarrow> bool"
  get :: "string \<Rightarrow> number option"
  date :: Date

record ParsedResult =
  r_text :: string
  r_start :: ParsedComponents
  r_end :: "ParsedComponents option"

record ParsingReference =
  instant :: Date
  timezone :: int

record ParsingOption =
  forwardDate :: bool

type_synonym chrono_parse =
  "string \<Rightarrow> ParsingReference \<Rightarrow> ParsingOption \<Rightarrow> thrown + ParsedResult list"

subsection \<open>\<^verbatim>\<open>normalizeReference\<close>\<close>

text \<open>
  \<open>Date_parse\<close> is the string parser of the \<^verbatim>\<open>Date\<close> constructor (implementation-defined
  outside the ECMAScript format) and \<open>now\<close> the wall clock read by \<^verbatim>\<open>new Date()\<close>.
\<close>

definition normalizeReference ::
  "(string \<Rightarrow> number) \<Rightarrow> Date \<Rightarrow> string option \<Rightarrow> thrown + Date" where
  "normalizeReference Date_parse now ref =
     (case ref of
        None \<Rightarrow> Inr now
      | Some r \<Rightarrow>
          if r = [] \<or> trim r = [] then Inr now
          else let parsed = new_Date (Date_parse r)
               in if getTime parsed = NaN
                  then Inl (Error (''Invalid reference date: '' @ r))
                  else Inr parsed)"

subsection \<open>\<^verbatim>\<open>extractComponents\<close>\<close>

definition allKeys :: "string list" where
  "allKeys = [''year'', ''month'', ''day'', ''hour'', ''minute'', ''second'',
              ''millisecond'', ''timezoneOffset'']"

text \<open>One iteration of the loop, on the pair of lists built so far.\<close>

definition extract_step ::
  "ParsedComponents \<Rightarrow> string list \<times> string list \<Rightarrow> string \<Rightarrow> string list \<times> string list" where
  "extract_step components acc key =
     (if isCertain components key then (fst acc @ [key], snd acc)
      else if get components key \<noteq> None then (fst acc, snd acc @ [key])
      else acc)"

definition extractComponents :: "ParsedComponents \<Rightarrow> string list \<times> string list" where
  "extractComponents components = foldl (extract_step components) ([], []) allKeys"

subsection \<open>\<^verbatim>\<open>convertParsedComponent\<close>\<close>

definition convertParsedComponent :: "ParsedComponents \<Rightarrow> int \<Rightarrow> ParsedDateTime" where
  "convertParsedComponent component outputOffset =
     (let d = date component;
          ci = extractComponents component
      in \<lparr>iso = toISOWithOffset d outputOffset,
          unix = getTime d,
          timezoneOffset = get component ''timezoneOffset'',
          certain = fst ci,
          implied = snd ci\<rparr>)"

subsection \<open>\<^verbatim>\<open>parseDateTime\<close>\<close>

text \<open>The function mapped over the selected candidates.\<close>

definition convertResult :: "int \<Rightarrow> ParsedResult \<Rightarrow> ParseResult" where
  "convertResult tzOffset result =
     \<lparr>res_text = r_text result,
      isRange = (r_end result \<noteq> None),
      res_start = convertParsedComponent (r_start result) tzOffset,
      res_end = (case r_end result of
                   None \<Rightarrow> None
                 | Some e \<Rightarrow> Some (convertParsedComponent e tzOffset))\<rparr>"

definition make_summary :: "ParseResult list \<Rightarrow> string" where
  "make_summary rs =
     (if length rs = 1
      then (if isRange (rs ! 0)
            then ''Parsed range: '' @ iso (res_start (rs ! 0)) @ '' to ''
                   @ (case res_end (rs ! 0) of None \<Rightarrow> ''undefined'' | Some e \<Rightarrow> iso e)
            else ''Parsed: '' @ iso (res_start (rs ! 0)))
      else ''Parsed '' @ String_of (Num (int (length rs))) @ '' date/time expressions'')"

text \<open>\<^verbatim>\<open>input.timezone_offset ?? 0\<close> and \<^verbatim>\<open>input.forwardOnly ?? true\<close>.\<close>

definition timezoneOffset_of :: "ChronoParseInput \<Rightarrow> int" where
  "timezoneOffset_of input = (case timezone_offset input of None \<Rightarrow> 0 | Some z \<Rightarrow> z)"

definition forwardDate_of :: "ChronoParseInput \<Rightarrow> bool" where
  "forwardDate_of input = (case forwardOnly input of None \<Rightarrow> True | Some b \<Rightarrow> b)"

definition parseDateTime ::
  "chrono_parse \<Rightarrow> (string \<Rightarrow> number) \<Rightarrow> Date \<Rightarrow> ChronoParseInput
     \<Rightarrow> thrown + ChronoParseOutput" where
  "parseDateTime chrono Date_parse now input =
     (if \<not> truthy (in_text input) \<or> typeof (in_text input) \<noteq> ''string''
      then Inl (Error ''text is required and must be a string'')
      else
        case normalizeReference Date_parse now (reference input) of
          Inl e \<Rightarrow> Inl e
        | Inr refDate \<Rightarrow>
            let tzOffset = timezoneOffset_of input;
                fwd = forwardDate_of input;
                ref = \<lparr>instant = refDate, timezone = tzOffset\<rparr>;
                options = \<lparr>forwardDate = fwd\<rparr>
            in case chrono (string_value (in_text input)) ref options of
                 Inl e \<Rightarrow> Inl e
               | Inr found \<Rightarrow>
                   let parseResults =
                         (if mode input = JString ''all'' then found else take 1 found)
                   in if length parseResults = 0
                      then Inr \<lparr>results = [], summary = ''No date/time expressions found''\<rparr>
                      else let rs = map (convertResult tzOffset) parseResults
                           in Inr \<lparr>results = rs, summary = make_summary rs\<rparr>)"

section \<open>The JSON-RPC handler: \<^verbatim>\<open>src/worker/handler.ts\<close>\<close>

record ToolCallParams =
  name :: js_value
  arguments :: "ChronoParseInput option"

record JSONRPCRequest =
  req_id :: js_value
  req_method :: string
  params :: "ToolCallParams option"

datatype rpc_result =
    InitializeResult
  | ToolsListResult "int option"
  | ToolCallResult string
  | EmptyResult

record rpc_error =
  code :: int
  message :: string

record JSONRPCResponse =
  resp_id :: js_value
  result :: "rpc_result option"
  error :: "rpc_error option"

text \<open>\<^verbatim>\<open>haystack.includes(needle)\<close>.\<close>

fun includes_str :: "string \<Rightarrow> string \<Rightarrow> bool" where
  "includes_str [] needle = (needle = [])"
| "includes_str (c # cs) needle = (prefix needle (c # cs) \<or> includes_str cs needle)"

text \<open>The \<^verbatim>\<open>catch\<close> block of the \<^verbatim>\<open>tools/call\<close> case.\<close>

definition error_message :: "thrown \<Rightarrow> string" where
  "error_message e = (case e of Error m \<Rightarrow> m | NonError \<Rightarrow> ''Unknown error'')"

definition error_code :: "string \<Rightarrow> int" where
  "error_code msg =
     (if includes_str msg ''required'' \<or> includes_str msg ''Invalid'' then - 32602 else - 32603)"

definition empty_arguments :: ChronoParseInput where
  "empty_arguments =
     \<lparr>in_text = JUndefined, reference = None, timezone_offset = None,
      forwardOnly = None, mode = JUndefined\<rparr>"

text \<open>
  The arguments handed to \<^verbatim>\<open>parseDateTime\<close>: \<^verbatim>\<open>params.arguments || {}\<close>, with the default
  offset of the query parameter put in when the arguments carry none.
\<close>

definition call_arguments :: "ToolCallParams \<Rightarrow> int option \<Rightarrow> ChronoParseInput" where
  "call_arguments p defaultTimezoneOffset =
     (let args = (case arguments p of None \<Rightarrow> empty_arguments | Some a \<Rightarrow> a)
      in if timezone_offset args = None \<and> defaultTimezoneOffset \<noteq> None
         then args\<lparr>timezone_offset := defaultTimezoneOffset\<rparr>
         else args)"

text \<open>
  \<open>stringify\<close> stands for \<^verbatim>\<open>JSON.stringify(result, null, 2)\<close>. The result of
  \<^verbatim>\<open>tools/list\<close> is determined by the default offset and is kept as that.
\<close>

definition handleMCPRequest ::
  "chrono_parse \<Rightarrow> (string \<Rightarrow> number) \<Rightarrow> Date \<Rightarrow> (ChronoParseOutput \<Rightarrow> string)
     \<Rightarrow> JSONRPCRequest \<Rightarrow> int option \<Rightarrow> JSONRPCResponse" where
  "handleMCPRequest chrono Date_parse now stringify request defaultTimezoneOffset =
     (if req_method request = ''initialize''
      then \<lparr>resp_id = req_id request, result = Some InitializeResult, error = None\<rparr>
      else if req_method request = ''tools/list''
      then \<lparr>resp_id = req_id request,
             result = Some (ToolsListResult defaultTimezoneOffset), error = None\<rparr>
      else if req_method request = ''tools/call''
      then (case params request of
              None \<Rightarrow>
                \<lparr>resp_id = req_id request, result = None,
                 error = Some \<lparr>code = - 32602, message = ''Unknown tool''\<rparr>\<rparr>
            | Some p \<Rightarrow>
                if name p \<noteq> JString ''chrono_parse''
                then \<lparr>resp_id = req_id request, result = None,
                       error = Some \<lparr>code = - 32602, message = ''Unknown tool''\<rparr>\<rparr>
                else
                  let args = call_arguments p defaultTimezoneOffset
                  in case parseDateTime chrono Date_parse now args of
                       Inr r \<Rightarrow>
                         \<lparr>resp_id = req_id request,
                          result = Some (ToolCallResult (stringify r)), error = None\<rparr>
                     | Inl e \<Rightarrow>
                         let msg = error_message e
                         in \<lparr>resp_id = req_id request, result = None,
                             error = Some \<lparr>code = error_code msg, message = msg\<rparr>\<rparr>)
      else if req_method request = ''notifications/initialized''
      then \<lparr>resp_id = JUndefined, result = Some EmptyResult, error = None\<rparr>
      else \<lparr>resp_id = req_id request, result = None,
             error = Some \<lparr>code = - 32601, message = ''Method not found''\<rparr>\<rparr>)"

section \<open>Sample collaborators\<close>

text \<open>
  Concrete stand-ins for the grammar library and for the \<^verbatim>\<open>Date\<close> string parser, used
  to run the theorems below on explicit requests.
\<close>

definition sample_components :: "int \<Rightarrow> ParsedComponents" where
  "sample_components t =
     \<lparr>isCertain = (\<lambda>k. k = ''month'' \<or> k = ''day''),
      get = (\<lambda>k. if k = ''timezoneOffset'' \<or> k = ''millisecond'' then None else Some (Num 1)),
      date = Date (Num t)\<rparr>"

text \<open>A grammar that finds two expressions, the second a range, whatever the text.\<close>

definition sample_chrono :: chrono_parse where
  "sample_chrono txt ref opt =
     Inr [\<lparr>r_text = txt, r_start = sample_components 0, r_end = None\<rparr>,
          \<lparr>r_text = txt, r_start = sample_components 1000,
           r_end = Some (sample_components 2000)\<rparr>]"

text \<open>A grammar that finds one range.\<close>

definition range_chrono :: chrono_parse where
  "range_chrono txt ref opt =
     Inr [\<lparr>r_text = txt, r_start = sample_components 1000,
           r_end = Some (sample_components 2000)\<rparr>]"

text \<open>
  A grammar that reads every text as midnight of 1970-01-01 on the wall clock of the
  reference timezone, as the library does for a time written without a zone.
\<close>

definition wall_clock_chrono :: chrono_parse where
  "wall_clock_chrono txt ref opt =
     Inr [\<lparr>r_text = txt,
           r_start = \<lparr>isCertain = (\<lambda>k. k = ''hour''),
                      get = (\<lambda>k. if k = ''hour'' then Some (Num 0) else None),
                      date = Date (Num (- (timezone ref * 60000)))\<rparr>,
           r_end = None\<rparr>]"

text \<open>
  A grammar that reads the text \<^verbatim>\<open>"5pm"\<close> on the wall clock of the reference timezone
  and finds the same two expressions in every other text.
\<close>

definition picky_chrono :: chrono_parse where
  "picky_chrono txt ref opt =
     (if txt = ''5pm'' then wall_clock_chrono txt ref opt else sample_chrono txt ref opt)"

text \<open>A grammar that always throws.\<close>

definition failing_chrono :: chrono_parse where
  "failing_chrono txt ref opt = Inl NonError"

definition sample_Date_parse :: "string \<Rightarrow> number" where
  "sample_Date_parse s = (if s = ''1970-01-01T00:00:00.000Z'' then Num 0 else NaN)"

definition sample_input :: ChronoParseInput where
  "sample_input =
     \<lparr>in_text = JString ''tomorrow'', reference = None, timezone_offset = Some 540,
      forwardOnly = None, mode = JUndefined\<rparr>"

text \<open>A grammar that finds nothing.\<close>

definition silent_chrono :: chrono_parse where
  "silent_chrono txt ref opt = Inr []"

definition sample_request :: JSONRPCRequest where
  "sample_request =
     \<lparr>req_id = JNumber (Num 1), req_method = ''tools/call'',
      params = Some \<lparr>name = JString ''chrono_parse'', arguments = None\<rparr>\<rparr>"

section \<open>Notions used to state the properties\<close>

definition is_string :: "js_value \<Rightarrow> bool" where
  "is_string v = (case v of JString s \<Rightarrow> True | _ \<Rightarrow> False)"

text \<open>A reference that is absent, empty or made of white space only.\<close>

definition is_blank :: "string option \<Rightarrow> bool" where
  "is_blank ref = (case ref of None \<Rightarrow> True | Some r \<Rightarrow> list_all isWhiteSpace r)"

text \<open>The string parser of \<^verbatim>\<open>Date\<close> reads \<open>r\<close> as an instant of the time range.\<close>

definition denotes_instant :: "(string \<Rightarrow> number) \<Rightarrow> string \<Rightarrow> bool" where
  "denotes_instant Date_parse r =
     (case Date_parse r of NaN \<Rightarrow> False | Num t \<Rightarrow> \<bar>t\<bar> \<le> maxTimeValue)"

text \<open>A response with every \<^verbatim>\<open>iso\<close> string and the summary blanked: what is left of it
  when the rendering is set aside.\<close>

definition without_iso :: "ParseResult \<Rightarrow> ParseResult" where
  "without_iso r =
     r\<lparr>res_start := (res_start r)\<lparr>iso := []\<rparr>,
       res_end := map_option (\<lambda>e. e\<lparr>iso := []\<rparr>) (res_end r)\<rparr>"

definition response_without_iso ::
  "thrown + ChronoParseOutput \<Rightarrow> thrown + ParseResult list" where
  "response_without_iso res = map_sum id (\<lambda>out. map without_iso (results out)) res"

subsection \<open>Reading a rendered string back\<close>

text \<open>
  \<^verbatim>\<open>new Date(s)\<close> on a string of the ECMAScript Date Time String Format, in the complete
  form \<^verbatim>\<open>YYYY-MM-DDTHH:mm:ss.sss\<close> followed by \<^verbatim>\<open>+HH:mm\<close> or \<^verbatim>\<open>-HH:mm\<close>: the form that
  \<^verbatim>\<open>toISOWithOffset\<close> aims at. Fields have a fixed width; a string of another shape, or
  with a field out of its range, is not of the format and gives \<open>NaN\<close> here (what an
  engine does with it beyond the format is implementation-defined).
\<close>

definition is_digit :: "char \<Rightarrow> bool" where
  "is_digit c = (c \<in> set ''0123456789'')"

definition digit_value :: "char \<Rightarrow> int" where
  "digit_value c = int (of_char c) - 48"

definition number_of_digits :: "string \<Rightarrow> int" where
  "number_of_digits ds = foldl (\<lambda>n c. 10 * n + digit_value c) 0 ds"

definition take_number :: "nat \<Rightarrow> string \<Rightarrow> (int \<times> string) option" where
  "take_number n s =
     (if n \<le> length s \<and> list_all is_digit (take n s)
      then Some (number_of_digits (take n s), drop n s)
      else None)"

definition take_char :: "char \<Rightarrow> string \<Rightarrow> string option" where
  "take_char c s = (case s of [] \<Rightarrow> None | x # r \<Rightarrow> if x = c then Some r else None)"

definition take_sign :: "string \<Rightarrow> (int \<times> string) option" where
  "take_sign s =
     (case s of
        [] \<Rightarrow> None
      | x # r \<Rightarrow> if x = CHR ''+'' then Some (1, r)
                 else if x = CHR ''-'' then Some (- 1, r)
                 else None)"

text \<open>The fields of a string: year, month, day, hour, minute, second, millisecond,
  sign of the offset, its hours and its minutes.\<close>

type_synonym iso_fields = "int \<times> int \<times> int \<times> int \<times> int \<times> int \<times> int \<times> int \<times> int \<times> int"

definition parse_fields :: "string \<Rightarrow> iso_fields option" where
  "parse_fields s0 =
     do {
       (y, s1) \<leftarrow> take_number 4 s0;
       s2 \<leftarrow> take_char (CHR ''-'') s1;
       (mo, s3) \<leftarrow> take_number 2 s2;
       s4 \<leftarrow> take_char (CHR ''-'') s3;
       (d, s5) \<leftarrow> take_number 2 s4;
       s6 \<leftarrow> take_char (CHR ''T'') s5;
       (h, s7) \<leftarrow> take_number 2 s6;
       s8 \<leftarrow> take_char (CHR '':'') s7;
       (mi, s9) \<leftarrow> take_number 2 s8;
       s10 \<leftarrow> take_char (CHR '':'') s9;
       (sec, s11) \<leftarrow> take_number 2 s10;
       s12 \<leftarrow> take_char (CHR ''.'') s11;
       (ms, s13) \<leftarrow> take_number 3 s12;
       (sg, s14) \<leftarrow> take_sign s13;
       (oh, s15) \<leftarrow> take_number 2 s14;
       s16 \<leftarrow> take_char (CHR '':'') s15;
       (om, s17) \<leftarrow> take_number 2 s16;
       if s17 = [] then Some (y, mo, d, h, mi, sec, ms, sg, oh, om) else None
     }"

text \<open>Days of month \<open>m\<close> (1 = January) in a year with leap flag \<open>l\<close>.\<close>

definition DaysInMonth :: "int \<Rightarrow> int \<Rightarrow> int" where
  "DaysInMonth l m =
     (if m = 2 then 28 + l
      else if m = 4 \<or> m = 6 \<or> m = 9 \<or> m = 11 then 30
      else 31)"

definition leap_flag :: "int \<Rightarrow> int" where
  "leap_flag y = (if DaysInYear y = 366 then 1 else 0)"

text \<open>MakeDay, MakeTime and MakeDate of ECMA-262, for a month in 0..11.\<close>

definition MakeDay :: "int \<Rightarrow> int \<Rightarrow> int \<Rightarrow> int" where
  "MakeDay y m dt = DayFromYear y + monthStart (leap_flag y) m + dt - 1"

definition MakeTime :: "int \<Rightarrow> int \<Rightarrow> int \<Rightarrow> int \<Rightarrow> int" where
  "MakeTime h m s ms = h * 3600000 + m * 60000 + s * 1000 + ms"

definition MakeDate :: "int \<Rightarrow> int \<Rightarrow> int" where
  "MakeDate day time = day * msPerDay + time"

definition fields_in_range :: "iso_fields \<Rightarrow> bool" where
  "fields_in_range f =
     (case f of (y, mo, d, h, mi, sec, ms, sg, oh, om) \<Rightarrow>
        1 \<le> mo \<and> mo \<le> 12 \<and> 1 \<le> d \<and> d \<le> DaysInMonth (leap_flag y) mo \<and>
        (h \<le> 23 \<or> h = 24 \<and> mi = 0 \<and> sec = 0 \<and> ms = 0) \<and> mi \<le> 59 \<and> sec \<le> 59 \<and>
        oh \<le> 23 \<and> om \<le> 59)"

definition time_value_of_fields :: "iso_fields \<Rightarrow> int" where
  "time_value_of_fields f =
     (case f of (y, mo, d, h, mi, sec, ms, sg, oh, om) \<Rightarrow>
        MakeDate (MakeDay y (mo - 1) d) (MakeTime h mi sec ms) - sg * (oh * 60 + om) * 60000)"

definition Date_parse_format :: "string \<Rightarrow> number" where
  "Date_parse_format s =
     (case parse_fields s of
        None \<Rightarrow> NaN
      | Some f \<Rightarrow>
          if fields_in_range f then getTime (new_Date (Num (time_value_of_fields f)))
          else NaN)"

text \<open>
  The shape \<^verbatim>\<open>YYYY-MM-DDTHH:MM:SS.mmm\<close> with a suffix \<^verbatim>\<open>+HH:MM\<close> or \<^verbatim>\<open>-HH:MM\<close>: in the
  pattern, \<^verbatim>\<open>9\<close> stands for a decimal digit and \<^verbatim>\<open>+\<close> for a sign.
\<close>

fun matches_pattern :: "string \<Rightarrow> string \<Rightarrow> bool" where
  "matches_pattern [] [] = True"
| "matches_pattern (p # ps) (c # cs) =
     ((if p = CHR ''9'' then is_digit c
       else if p = CHR ''+'' then c = CHR ''+'' \<or> c = CHR ''-''
       else c = p) \<and> matches_pattern ps cs)"
| "matches_pattern _ _ = False"

definition iso_shape :: "string \<Rightarrow> bool" where
  "iso_shape s = matches_pattern ''9999-99-99T99:99:99.999+99:99'' s"

text \<open>The \<open>k\<close> low decimal digits of \<open>n\<close>, zeros included.\<close>

fun fixed_digits :: "nat \<Rightarrow> nat \<Rightarrow> string" where
  "fixed_digits 0 n = []"
| "fixed_digits (Suc k) n = fixed_digits k (n div 10) @ [digit_char n]"

text \<open>The string that \<^verbatim>\<open>toISOWithOffset\<close> builds from a shifted instant \<open>u\<close> whose fields
  fit their widths.\<close>

definition rendered :: "int \<Rightarrow> int \<Rightarrow> string" where
  "rendered u off =
     fixed_digits 4 (nat (YearFromTime u)) @ ''-'' @ fixed_digits 2 (nat (MonthFromTime u + 1))
       @ ''-'' @ fixed_digits 2 (nat (DateFromTime u)) @ ''T''
       @ fixed_digits 2 (nat (HourFromTime u)) @ '':'' @ fixed_digits 2 (nat (MinFromTime u))
       @ '':'' @ fixed_digits 2 (nat (SecFromTime u)) @ ''.'' @ fixed_digits 3 (nat (msFromTime u))
       @ (if 0 \<le> off then ''+'' else ''-'') @ fixed_digits 2 (nat (\<bar>off\<bar> div 60))
       @ '':'' @ fixed_digits 2 (nat (\<bar>off\<bar> mod 60))"

text \<open>
  The summary as the specification words it, a function of the final result list:
  nothing found, one result that is not a range, one range, several results.
\<close>

fun summary_spec :: "ParseResult list \<Rightarrow> string" where
  "summary_spec [] = ''No date/time expressions found''"
| "summary_spec [r] =
     (if isRange r
      then ''Parsed range: '' @ iso (res_start r) @ '' to ''
             @ (case res_end r of Some e \<Rightarrow> iso e | None \<Rightarrow> [])
      else ''Parsed: '' @ iso (res_start r))"
| "summary_spec (r # r' # rs) =
     ''Parsed '' @ String_of (Num (int (length (r # r' # rs)))) @ '' date/time expressions''"

text \<open>The candidates that are projected: all of them, or the first.\<close>

definition selected :: "js_value \<Rightarrow> ParsedResult list \<Rightarrow> ParsedResult list" where
  "selected m found = (if m = JString ''all'' then found else take 1 found)"

text \<open>The \<^verbatim>\<open>unix\<close> values of the start of every result.\<close>

definition start_instants :: "thrown + ChronoParseOutput \<Rightarrow> thrown + number list" where
  "start_instants res = map_sum id (\<lambda>out. map (\<lambda>r. unix (res_start r)) (results out)) res"

text \<open>
  The call of the grammar that \<^verbatim>\<open>parseDateTime\<close> makes for a request whose reference has
  resolved to \<open>refDate\<close>.
\<close>

definition grammar_call ::
  "chrono_parse \<Rightarrow> ChronoParseInput \<Rightarrow> Date \<Rightarrow> thrown + ParsedResult list" where
  "grammar_call chrono input refDate =
     chrono (string_value (in_text input))
       \<lparr>instant = refDate, timezone = timezoneOffset_of input\<rparr>
       \<lparr>forwardDate = forwardDate_of input\<rparr>"

text \<open>
  For this request, the grammar returns the same candidates whether the offset is
  \<open>o1\<close> or \<open>o2\<close>: a condition on the one call the request leads to (none when the
  text or the reference is refused), not on the grammar as a whole.
\<close>

definition same_candidates ::
  "chrono_parse \<Rightarrow> (string \<Rightarrow> number) \<Rightarrow> Date \<Rightarrow> ChronoParseInput
     \<Rightarrow> int option \<Rightarrow> int option \<Rightarrow> bool" where
  "same_candidates chrono Date_parse now input o1 o2 =
     (if \<not> truthy (in_text input) \<or> typeof (in_text input) \<noteq> ''string'' then True
      else case normalizeReference Date_parse now (reference input) of
             Inl e \<Rightarrow> True
           | Inr refDate \<Rightarrow>
               grammar_call chrono (input\<lparr>timezone_offset := o1\<rparr>) refDate
                 = grammar_call chrono (input\<lparr>timezone_offset := o2\<rparr>) refDate)"

section \<open>Field partition\<close>

lemma extract_foldl:
  "foldl (extract_step c) (cs, im) ks =
     (cs @ filter (isCertain c) ks,
      im @ filter (\<lambda>k. \<not> isCertain c k \<and> get c k \<noteq> None) ks)"
  by (induction ks arbitrary: cs im) (simp_all add: extract_step_def)

lemma extractComponents_filter:
  "extractComponents c =
     (filter (isCertain c) allKeys,
      filter (\<lambda>k. \<not> isCertain c k \<and> get c k \<noteq> None) allKeys)"
  by (simp add: extractComponents_def extract_foldl)

lemma certain_convert:
  "certain (convertParsedComponent c off) = filter (isCertain c) allKeys"
  by (simp add: convertParsedComponent_def Let_def extractComponents_filter)

lemma implied_convert:
  "implied (convertParsedComponent c off) =
     filter (\<lambda>k. \<not> isCertain c k \<and> get c k \<noteq> None) allKeys"
  by (simp add: convertParsedComponent_def Let_def extractComponents_filter)

lemma distinct_allKeys: "distinct allKeys"
  by (simp add: allKeys_def)

text \<open>
  Claim C4. For every component set \<open>c\<close> of the grammar library and every output
  offset, the \<open>certain\<close> and \<open>implied\<close> lists of the converted value are the eight
  field names filtered in their fixed order: a name is certain exactly when the
  library marks it certain, implied exactly when it is not certain and has a value
  (\<^verbatim>\<open>get\<close> is not \<^verbatim>\<open>null\<close>), and in neither list otherwise. The lists are disjoint,
  without repetition, and within the vocabulary.
\<close>

theorem extractComponents_partition:
  "certain (convertParsedComponent c off) = filter (isCertain c) allKeys \<and>
   implied (convertParsedComponent c off) =
     filter (\<lambda>k. \<not> isCertain c k \<and> get c k \<noteq> None) allKeys \<and>
   set (certain (convertParsedComponent c off))
     \<inter> set (implied (convertParsedComponent c off)) = {} \<and>
   set (certain (convertParsedComponent c off)) \<subseteq> set allKeys \<and>
   set (implied (convertParsedComponent c off)) \<subseteq> set allKeys \<and>
   (k \<in> set (certain (convertParsedComponent c off)))
      = (k \<in> set allKeys \<and> isCertain c k) \<and>
   (k \<in> set (implied (convertParsedComponent c off)))
      = (k \<in> set allKeys \<and> \<not> isCertain c k \<and> get c k \<noteq> None) \<and>
   subseq (certain (convertParsedComponent c off)) allKeys \<and>
   subseq (implied (convertParsedComponent c off)) allKeys \<and>
   distinct (certain (convertParsedComponent c off)) \<and>
   distinct (implied (convertParsedComponent c off)) \<and>
   {k. \<not> isCertain c k \<and> get c k = None}
     \<inter> (set (certain (convertParsedComponent c off))
          \<union> set (implied (convertParsedComponent c off))) = {} \<and>
   allKeys = [''year'', ''month'', ''day'', ''hour'', ''minute'', ''second'',
              ''millisecond'', ''timezoneOffset'']"
  unfolding certain_convert implied_convert
  by (auto simp: distinct_allKeys allKeys_def[symmetric] intro: allKeys_def)

section \<open>Validation, selection, summary and errors\<close>

lemma typeof_string: "(typeof v = ''string'') = is_string v"
  by (cases v) (simp_all add: is_string_def)

lemma text_check:
  "(\<not> truthy v \<or> typeof v \<noteq> ''string'') = (v = JString [] \<or> \<not> is_string v)"
  by (cases v) (simp_all add: is_string_def)

lemma parseDateTime_valid:
  assumes "in_text input = JString t" and "t \<noteq> []"
    and "normalizeReference Date_parse now (reference input) = Inr refDate"
    and "chrono t \<lparr>instant = refDate, timezone = timezoneOffset_of input\<rparr>
           \<lparr>forwardDate = forwardDate_of input\<rparr> = Inr found"
  shows "parseDateTime chrono Date_parse now input =
           (let sel = (if mode input = JString ''all'' then found else take 1 found)
            in if sel = []
               then Inr \<lparr>results = [], summary = ''No date/time expressions found''\<rparr>
               else Inr \<lparr>results = map (convertResult (timezoneOffset_of input)) sel,
                         summary = make_summary (map (convertResult (timezoneOffset_of input)) sel)\<rparr>)"
  using assms by (simp add: parseDateTime_def Let_def)

text \<open>
  Claim C5. For a valid request (a non-empty string as text, a reference that
  resolves, a grammar call that returns the candidates \<open>found\<close>): with mode
  \<^verbatim>\<open>"first"\<close> the results are the projection of \<open>take 1 found\<close>, so at most one and
  the first candidate only, the truncation being applied to the candidates and not to
  the projected list; with mode \<^verbatim>\<open>"all"\<close> they are the projection of every candidate, in
  the order of the grammar, as many as it returned.
\<close>

theorem mode_selects_candidates:
  assumes "in_text input = JString t" and "t \<noteq> []"
    and "normalizeReference Date_parse now (reference input) = Inr refDate"
    and "chrono t \<lparr>instant = refDate, timezone = timezoneOffset_of input\<rparr>
           \<lparr>forwardDate = forwardDate_of input\<rparr> = Inr found"
    and "mode input = JString m" and "m = ''first'' \<or> m = ''all''"
  shows "\<exists>out. parseDateTime chrono Date_parse now input = Inr out \<and>
           (m = ''first'' \<longrightarrow>
              results out = map (convertResult (timezoneOffset_of input)) (take 1 found) \<and>
              length (results out) \<le> 1) \<and>
           (m = ''all'' \<longrightarrow>
              results out = map (convertResult (timezoneOffset_of input)) found \<and>
              length (results out) = length found)"
proof -
  note v = parseDateTime_valid [of input t Date_parse now refDate chrono found,
      OF assms(1) assms(2) assms(3) assms(4)]
  show ?thesis
  proof (cases "m = ''all''")
    case True
    then show ?thesis
      using assms(5) by (cases found) (simp_all add: v)
  next
    case False
    with assms(6) have m: "m = ''first''" by simp
    show ?thesis
      using assms(5) m by (cases found) (simp_all add: v)
  qed
qed

theorem mode_selects_candidates_witness:
  "(\<exists>out. parseDateTime sample_chrono sample_Date_parse (Date (Num 0))
            (sample_input\<lparr>mode := JString ''first''\<rparr>) = Inr out \<and> length (results out) = 1) \<and>
   (\<exists>out. parseDateTime sample_chrono sample_Date_parse (Date (Num 0))
            (sample_input\<lparr>mode := JString ''all''\<rparr>) = Inr out \<and> length (results out) = 2)"
proof -
  let ?found = "[\<lparr>r_text = ''tomorrow'', r_start = sample_components 0, r_end = None\<rparr>,
          \<lparr>r_text = ''tomorrow'', r_start = sample_components 1000,
           r_end = Some (sample_components 2000)\<rparr>]"
  have first: "\<exists>out. parseDateTime sample_chrono sample_Date_parse (Date (Num 0))
            (sample_input\<lparr>mode := JString ''first''\<rparr>) = Inr out \<and> length (results out) = 1"
    using mode_selects_candidates [of "sample_input\<lparr>mode := JString ''first''\<rparr>" "''tomorrow''"
        sample_Date_parse "Date (Num 0)" "Date (Num 0)" sample_chrono ?found "''first''"]
    by (auto simp: sample_input_def normalizeReference_def sample_chrono_def)
  have all: "\<exists>out. parseDateTime sample_chrono sample_Date_parse (Date (Num 0))
            (sample_input\<lparr>mode := JString ''all''\<rparr>) = Inr out \<and> length (results out) = 2"
    using mode_selects_candidates [of "sample_input\<lparr>mode := JString ''all''\<rparr>" "''tomorrow''"
        sample_Date_parse "Date (Num 0)" "Date (Num 0)" sample_chrono ?found "''all''"]
    by (auto simp: sample_input_def normalizeReference_def sample_chrono_def)
  from first all show ?thesis by simp
qed


lemma iso_convert: "iso (convertParsedComponent c off) = toISOWithOffset (date c) off"
  by (simp add: convertParsedComponent_def Let_def)

lemma unix_convert: "unix (convertParsedComponent c off) = getTime (date c)"
  by (simp add: convertParsedComponent_def Let_def)

lemma timezoneOffset_convert:
  "timezoneOffset (convertParsedComponent c off) = get c ''timezoneOffset''"
  by (simp add: convertParsedComponent_def Let_def)

text \<open>
  Claim C6. For a valid request the response is a normal one and its summary is the
  function \<open>summary_spec\<close> of the final result list: the fixed sentence for no result
  (the results being empty), \<^verbatim>\<open>"Parsed: "\<close> and the start for one result that is not a
  range, \<^verbatim>\<open>"Parsed range: "\<close>, the start, \<^verbatim>\<open>" to "\<close> and the end for one range, the count
  for several. A result is a range exactly when it has an end.
\<close>

theorem summary_follows_results:
  assumes "in_text input = JString t" and "t \<noteq> []"
    and "normalizeReference Date_parse now (reference input) = Inr refDate"
    and "chrono t \<lparr>instant = refDate, timezone = timezoneOffset_of input\<rparr>
           \<lparr>forwardDate = forwardDate_of input\<rparr> = Inr found"
  shows "\<exists>out. parseDateTime chrono Date_parse now input = Inr out \<and>
           results out = map (convertResult (timezoneOffset_of input)) (selected (mode input) found) \<and>
           summary out = summary_spec (results out) \<and>
           list_all (\<lambda>r. isRange r = (res_end r \<noteq> None)) (results out)"
proof -
  note v = parseDateTime_valid [of input t Date_parse now refDate chrono found,
      OF assms(1) assms(2) assms(3) assms(4)]
  let ?sel = "if mode input = JString ''all'' then found else take 1 found"
  have ranges: "list_all (\<lambda>r. isRange r = (res_end r \<noteq> None)) (map (convertResult z) xs)" for z xs
    by (induction xs) (simp_all add: convertResult_def split: option.splits)
  show ?thesis
  proof (cases ?sel)
    case Nil
    then show ?thesis by (simp add: v selected_def)
  next
    case (Cons x xs)
    note outer = Cons
    show ?thesis
    proof (cases xs)
      case Nil
      with outer have "?sel = [x]" by simp
      then show ?thesis
        by (cases "r_end x") (simp_all add: v make_summary_def convertResult_def selected_def)
    next
      case (Cons y ys)
      with outer have sel: "?sel = x # y # ys" by simp
      have "list_all (\<lambda>r. isRange r = (res_end r \<noteq> None))
              (map (convertResult (timezoneOffset_of input)) (x # y # ys))"
        by (rule ranges)
      with sel show ?thesis
        by (simp add: v make_summary_def selected_def)
    qed
  qed
qed

theorem summary_follows_results_witness:
  "(\<exists>out. parseDateTime silent_chrono sample_Date_parse (Date (Num 0)) sample_input = Inr out \<and>
      out = \<lparr>results = [], summary = ''No date/time expressions found''\<rparr>) \<and>
   (\<exists>out. parseDateTime sample_chrono sample_Date_parse (Date (Num 0)) sample_input = Inr out \<and>
      summary out = ''Parsed: '' @ toISOWithOffset (Date (Num 0)) 540) \<and>
   (\<exists>out. parseDateTime range_chrono sample_Date_parse (Date (Num 0)) sample_input = Inr out \<and>
      summary out = ''Parsed range: '' @ toISOWithOffset (Date (Num 1000)) 540 @ '' to ''
                      @ toISOWithOffset (Date (Num 2000)) 540) \<and>
   (\<exists>out. parseDateTime sample_chrono sample_Date_parse (Date (Num 0))
             (sample_input\<lparr>mode := JString ''all''\<rparr>) = Inr out \<and>
      summary out = ''Parsed '' @ String_of (Num 2) @ '' date/time expressions'')"
proof -
  have none: "\<exists>out. parseDateTime silent_chrono sample_Date_parse (Date (Num 0)) sample_input = Inr out \<and>
      out = \<lparr>results = [], summary = ''No date/time expressions found''\<rparr>"
    using summary_follows_results [of sample_input "''tomorrow''" sample_Date_parse "Date (Num 0)" "Date (Num 0)"
        silent_chrono "[]"]
    by (auto simp: sample_input_def normalizeReference_def silent_chrono_def selected_def)
  have one: "\<exists>out. parseDateTime sample_chrono sample_Date_parse (Date (Num 0)) sample_input = Inr out \<and>
      summary out = ''Parsed: '' @ toISOWithOffset (Date (Num 0)) 540"
    using summary_follows_results [of sample_input "''tomorrow''" sample_Date_parse "Date (Num 0)" "Date (Num 0)"
        sample_chrono "[\<lparr>r_text = ''tomorrow'', r_start = sample_components 0, r_end = None\<rparr>,
          \<lparr>r_text = ''tomorrow'', r_start = sample_components 1000,
           r_end = Some (sample_components 2000)\<rparr>]"]
    by (auto simp: sample_input_def normalizeReference_def sample_chrono_def selected_def
        convertResult_def iso_convert sample_components_def timezoneOffset_of_def)
  have range: "\<exists>out. parseDateTime range_chrono sample_Date_parse (Date (Num 0)) sample_input = Inr out \<and>
      summary out = ''Parsed range: '' @ toISOWithOffset (Date (Num 1000)) 540 @ '' to ''
                      @ toISOWithOffset (Date (Num 2000)) 540"
    using summary_follows_results [of sample_input "''tomorrow''" sample_Date_parse "Date (Num 0)" "Date (Num 0)"
        range_chrono "[\<lparr>r_text = ''tomorrow'', r_start = sample_components 1000,
           r_end = Some (sample_components 2000)\<rparr>]"]
    by (auto simp: sample_input_def normalizeReference_def range_chrono_def selected_def
        convertResult_def iso_convert sample_components_def timezoneOffset_of_def)
  have many: "\<exists>out. parseDateTime sample_chrono sample_Date_parse (Date (Num 0))
             (sample_input\<lparr>mode := JString ''all''\<rparr>) = Inr out \<and>
      summary out = ''Parsed '' @ String_of (Num 2) @ '' date/time expressions''"
    using summary_follows_results [of "sample_input\<lparr>mode := JString ''all''\<rparr>" "''tomorrow''" sample_Date_parse "Date (Num 0)" "Date (Num 0)"
        sample_chrono "[\<lparr>r_text = ''tomorrow'', r_start = sample_components 0, r_end = None\<rparr>,
          \<lparr>r_text = ''tomorrow'', r_start = sample_components 1000,
           r_end = Some (sample_components 2000)\<rparr>]"]
    by (auto simp: sample_input_def normalizeReference_def sample_chrono_def selected_def)
  from none one range many show ?thesis by blast
qed


lemma includes_str_sublist: "includes_str s n = sublist n s"
  by (induction s) (simp_all add: sublist_Cons_right)

lemma error_code_required:
  "error_code ''text is required and must be a string'' = - 32602"
  by (simp add: error_code_def)

text \<open>
  Claim C7. When the text of the request is the empty string or is not a string
  (absent, \<^verbatim>\<open>null\<close>, a number, ...), \<^verbatim>\<open>parseDateTime\<close> throws the error "text is
  required and must be a string", which the handler reports as invalid params; this
  holds for every grammar, also one that throws whenever it is called, so the grammar
  is not reached, and no response is returned.
\<close>

theorem invalid_text_rejected:
  assumes "in_text input = JString [] \<or> \<not> is_string (in_text input)"
  shows "parseDateTime chrono Date_parse now input
           = Inl (Error ''text is required and must be a string'') \<and>
         error_code (error_message (Error ''text is required and must be a string'')) = - 32602"
  using assms text_check [of "in_text input"]
  by (simp add: parseDateTime_def error_message_def error_code_required)

theorem invalid_text_rejected_witness:
  "parseDateTime failing_chrono sample_Date_parse (Date (Num 0))
     (sample_input\<lparr>in_text := JUndefined\<rparr>)
     = Inl (Error ''text is required and must be a string'') \<and>
   parseDateTime sample_chrono sample_Date_parse (Date (Num 0))
     (sample_input\<lparr>in_text := JString []\<rparr>)
     = Inl (Error ''text is required and must be a string'') \<and>
   parseDateTime sample_chrono sample_Date_parse (Date (Num 0))
     (sample_input\<lparr>in_text := JNumber (Num 5)\<rparr>)
     = Inl (Error ''text is required and must be a string'')"
  using invalid_text_rejected [of "sample_input\<lparr>in_text := JUndefined\<rparr>" failing_chrono sample_Date_parse "Date (Num 0)"]
    invalid_text_rejected [of "sample_input\<lparr>in_text := JString []\<rparr>" sample_chrono sample_Date_parse "Date (Num 0)"]
    invalid_text_rejected [of "sample_input\<lparr>in_text := JNumber (Num 5)\<rparr>" sample_chrono sample_Date_parse "Date (Num 0)"]
  by (simp add: is_string_def)

lemma dropWhile_all: "(\<forall>x\<in>set (dropWhile P xs). P x) = (\<forall>x\<in>set xs. P x)"
  by (induction xs) auto

lemma trim_empty: "(trim r = []) = list_all isWhiteSpace r"
  by (simp add: trim_def dropWhile_eq_Nil_conv dropWhile_all list_all_iff)

lemma error_code_Invalid: "error_code (''Invalid reference date: '' @ r) = - 32602"
  by (simp add: error_code_def)

text \<open>
  Claim C8. \<^verbatim>\<open>normalizeReference\<close> returns the wall clock for a reference that is absent
  or blank; for any other reference it returns the instant the \<^verbatim>\<open>Date\<close> parser reads,
  when it reads one, and otherwise throws "Invalid reference date: ..." (reported by
  the handler as invalid params).
\<close>

theorem normalizeReference_cases:
  "(is_blank ref \<longrightarrow> normalizeReference Date_parse now ref = Inr now) \<and>
   (\<not> is_blank ref \<and> ref = Some r \<and> denotes_instant Date_parse r \<longrightarrow>
      normalizeReference Date_parse now ref = Inr (Date (Date_parse r))) \<and>
   (\<not> is_blank ref \<and> ref = Some r \<and> \<not> denotes_instant Date_parse r \<longrightarrow>
      normalizeReference Date_parse now ref = Inl (Error (''Invalid reference date: '' @ r)) \<and>
      error_code (error_message (Error (''Invalid reference date: '' @ r))) = - 32602)"
proof (intro conjI impI)
  assume "is_blank ref"
  then show "normalizeReference Date_parse now ref = Inr now"
    by (cases ref) (auto simp: is_blank_def normalizeReference_def trim_empty)
next
  assume a: "\<not> is_blank ref \<and> ref = Some r \<and> denotes_instant Date_parse r"
  then have nb: "r \<noteq> []" "trim r \<noteq> []"
    by (auto simp: is_blank_def trim_empty)
  from a show "normalizeReference Date_parse now ref = Inr (Date (Date_parse r))"
    by (cases "Date_parse r") (simp_all add: denotes_instant_def normalizeReference_def nb Let_def)
next
  assume a: "\<not> is_blank ref \<and> ref = Some r \<and> \<not> denotes_instant Date_parse r"
  then have nb: "r \<noteq> []" "trim r \<noteq> []"
    by (auto simp: is_blank_def trim_empty)
  from a show "normalizeReference Date_parse now ref = Inl (Error (''Invalid reference date: '' @ r))"
    by (cases "Date_parse r") (simp_all add: denotes_instant_def normalizeReference_def nb Let_def)
next
  show "error_code (error_message (Error (''Invalid reference date: '' @ r))) = - 32602"
    by (simp only: error_message_def thrown.case error_code_Invalid)
qed

theorem normalizeReference_cases_witness:
  "normalizeReference sample_Date_parse (Date (Num 7)) None = Inr (Date (Num 7)) \<and>
   normalizeReference sample_Date_parse (Date (Num 7)) (Some [CHR '' '', CHR 0x09]) = Inr (Date (Num 7)) \<and>
   normalizeReference sample_Date_parse (Date (Num 7)) (Some ''1970-01-01T00:00:00.000Z'')
     = Inr (Date (Num 0)) \<and>
   normalizeReference sample_Date_parse (Date (Num 7)) (Some ''next week'')
     = Inl (Error ''Invalid reference date: next week'')"
  using normalizeReference_cases [of None sample_Date_parse "Date (Num 7)" "[]"]
    normalizeReference_cases [of "Some [CHR '' '', CHR 0x09]" sample_Date_parse "Date (Num 7)" "[]"]
    normalizeReference_cases [of "Some ''1970-01-01T00:00:00.000Z''" sample_Date_parse "Date (Num 7)" "''1970-01-01T00:00:00.000Z''"]
    normalizeReference_cases [of "Some ''next week''" sample_Date_parse "Date (Num 7)" "''next week''"]
  by (simp add: is_blank_def isWhiteSpace_def denotes_instant_def sample_Date_parse_def maxTimeValue_def)

text \<open>
  Claim C9. A request whose mode is any value other than the string \<^verbatim>\<open>"all"\<close> (absent,
  another string, not a string) gets exactly the outcome of the same request with
  mode \<^verbatim>\<open>"first"\<close>; when the request is valid and the grammar returns the candidates
  \<open>found\<close>, its results are the projection of \<open>take 1 found\<close>: the first candidate only,
  the list being cut before it is projected.
\<close>

theorem mode_other_than_all_is_first:
  assumes "m \<noteq> JString ''all''"
  shows "parseDateTime chrono Date_parse now (input\<lparr>mode := m\<rparr>)
           = parseDateTime chrono Date_parse now (input\<lparr>mode := JString ''first''\<rparr>) \<and>
         (in_text input = JString t \<and> t \<noteq> [] \<and>
          normalizeReference Date_parse now (reference input) = Inr refDate \<and>
          chrono t \<lparr>instant = refDate, timezone = timezoneOffset_of input\<rparr>
            \<lparr>forwardDate = forwardDate_of input\<rparr> = Inr found \<longrightarrow>
          (\<exists>out. parseDateTime chrono Date_parse now (input\<lparr>mode := m\<rparr>) = Inr out \<and>
                 results out = map (convertResult (timezoneOffset_of input)) (take 1 found) \<and>
                 length (results out) \<le> 1))"
proof (intro conjI impI)
  show "parseDateTime chrono Date_parse now (input\<lparr>mode := m\<rparr>)
           = parseDateTime chrono Date_parse now (input\<lparr>mode := JString ''first''\<rparr>)"
    using assms
    by (simp add: parseDateTime_def timezoneOffset_of_def forwardDate_of_def Let_def
        split: sum.splits)
next
  assume v: "in_text input = JString t \<and> t \<noteq> [] \<and>
          normalizeReference Date_parse now (reference input) = Inr refDate \<and>
          chrono t \<lparr>instant = refDate, timezone = timezoneOffset_of input\<rparr>
            \<lparr>forwardDate = forwardDate_of input\<rparr> = Inr found"
  have tz: "timezoneOffset_of (input\<lparr>mode := m\<rparr>) = timezoneOffset_of input"
    by (simp add: timezoneOffset_of_def)
  have fw: "forwardDate_of (input\<lparr>mode := m\<rparr>) = forwardDate_of input"
    by (simp add: forwardDate_of_def)
  have p: "parseDateTime chrono Date_parse now (input\<lparr>mode := m\<rparr>) =
           (let sel = (if mode (input\<lparr>mode := m\<rparr>) = JString ''all'' then found else take 1 found)
            in if sel = []
               then Inr \<lparr>results = [], summary = ''No date/time expressions found''\<rparr>
               else Inr \<lparr>results = map (convertResult (timezoneOffset_of (input\<lparr>mode := m\<rparr>))) sel,
                         summary = make_summary
                           (map (convertResult (timezoneOffset_of (input\<lparr>mode := m\<rparr>))) sel)\<rparr>)"
    using v
    by (intro parseDateTime_valid [of "input\<lparr>mode := m\<rparr>" t Date_parse now refDate chrono found])
       (simp_all add: tz fw)
  show "\<exists>out. parseDateTime chrono Date_parse now (input\<lparr>mode := m\<rparr>) = Inr out \<and>
             results out = map (convertResult (timezoneOffset_of input)) (take 1 found) \<and>
             length (results out) \<le> 1"
    using assms by (cases found) (simp_all add: p tz)
qed

text \<open>
  Under the grammar that finds two expressions, an absent mode, a string in another
  case and a number each give one result.
\<close>

theorem mode_other_than_all_is_first_witness:
  "(\<exists>out. parseDateTime sample_chrono sample_Date_parse (Date (Num 0))
            (sample_input\<lparr>mode := JUndefined\<rparr>) = Inr out \<and> length (results out) = 1) \<and>
   (\<exists>out. parseDateTime sample_chrono sample_Date_parse (Date (Num 0))
            (sample_input\<lparr>mode := JString ''ALL''\<rparr>) = Inr out \<and> length (results out) = 1) \<and>
   (\<exists>out. parseDateTime sample_chrono sample_Date_parse (Date (Num 0))
            (sample_input\<lparr>mode := JNumber (Num 1)\<rparr>) = Inr out \<and> length (results out) = 1) \<and>
   parseDateTime sample_chrono sample_Date_parse (Date (Num 0)) (sample_input\<lparr>mode := JUndefined\<rparr>)
     = parseDateTime sample_chrono sample_Date_parse (Date (Num 0))
         (sample_input\<lparr>mode := JString ''first''\<rparr>)"
proof -
  let ?found = "[\<lparr>r_text = ''tomorrow'', r_start = sample_components 0, r_end = None\<rparr>,
          \<lparr>r_text = ''tomorrow'', r_start = sample_components 1000,
           r_end = Some (sample_components 2000)\<rparr>]"
  have a: "\<exists>out. parseDateTime sample_chrono sample_Date_parse (Date (Num 0))
            (sample_input\<lparr>mode := JUndefined\<rparr>) = Inr out \<and> length (results out) = 1"
    using mode_other_than_all_is_first [of JUndefined sample_chrono sample_Date_parse
        "Date (Num 0)" sample_input "''tomorrow''" "Date (Num 0)" ?found, THEN conjunct2]
    by (auto simp: sample_input_def normalizeReference_def sample_chrono_def)
  have b: "\<exists>out. parseDateTime sample_chrono sample_Date_parse (Date (Num 0))
            (sample_input\<lparr>mode := JString ''ALL''\<rparr>) = Inr out \<and> length (results out) = 1"
    using mode_other_than_all_is_first [of "JString ''ALL''" sample_chrono sample_Date_parse
        "Date (Num 0)" sample_input "''tomorrow''" "Date (Num 0)" ?found, THEN conjunct2]
    by (auto simp: sample_input_def normalizeReference_def sample_chrono_def)
  have c: "\<exists>out. parseDateTime sample_chrono sample_Date_parse (Date (Num 0))
            (sample_input\<lparr>mode := JNumber (Num 1)\<rparr>) = Inr out \<and> length (results out) = 1"
    using mode_other_than_all_is_first [of "JNumber (Num 1)" sample_chrono sample_Date_parse
        "Date (Num 0)" sample_input "''tomorrow''" "Date (Num 0)" ?found, THEN conjunct2]
    by (auto simp: sample_input_def normalizeReference_def sample_chrono_def)
  have d: "parseDateTime sample_chrono sample_Date_parse (Date (Num 0)) (sample_input\<lparr>mode := JUndefined\<rparr>)
     = parseDateTime sample_chrono sample_Date_parse (Date (Num 0))
         (sample_input\<lparr>mode := JString ''first''\<rparr>)"
    using mode_other_than_all_is_first [of JUndefined sample_chrono sample_Date_parse
        "Date (Num 0)" sample_input]
    by simp
  from a b c d show ?thesis by blast
qed

text \<open>
  Claim C10. When \<^verbatim>\<open>parseDateTime\<close> throws inside a \<^verbatim>\<open>tools/call\<close> for \<^verbatim>\<open>chrono_parse\<close>, the
  handler answers with an error whose message is that of the thrown error (\<^verbatim>\<open>"Unknown
  error"\<close> for a thrown value that is no \<^verbatim>\<open>Error\<close>) and whose code is -32602 exactly when
  the message contains "required" or "Invalid" as a substring, -32603 otherwise.
\<close>

theorem tools_call_error_code:
  assumes "req_method request = ''tools/call''"
    and "params request = Some p"
    and "name p = JString ''chrono_parse''"
    and "parseDateTime chrono Date_parse now (call_arguments p dflt) = Inl e"
  shows "\<exists>c. handleMCPRequest chrono Date_parse now stringify request dflt
               = \<lparr>resp_id = req_id request, result = None,
                  error = Some \<lparr>code = c, message = error_message e\<rparr>\<rparr> \<and>
             (c = - 32602) = (sublist ''required'' (error_message e)
                               \<or> sublist ''Invalid'' (error_message e)) \<and>
             (c = - 32603) = (\<not> (sublist ''required'' (error_message e)
                               \<or> sublist ''Invalid'' (error_message e)))"
  using assms
  by (simp add: handleMCPRequest_def Let_def error_code_def includes_str_sublist)

theorem tools_call_error_code_witness:
  "handleMCPRequest sample_chrono sample_Date_parse (Date (Num 0)) (\<lambda>r. []) sample_request None
     = \<lparr>resp_id = JNumber (Num 1), result = None,
        error = Some \<lparr>code = - 32602, message = ''text is required and must be a string''\<rparr>\<rparr> \<and>
   handleMCPRequest failing_chrono sample_Date_parse (Date (Num 0)) (\<lambda>r. [])
       (sample_request\<lparr>params := Some \<lparr>name = JString ''chrono_parse'', arguments = Some sample_input\<rparr>\<rparr>) None
     = \<lparr>resp_id = JNumber (Num 1), result = None,
        error = Some \<lparr>code = - 32603, message = ''Unknown error''\<rparr>\<rparr>"
proof -
  have a: "parseDateTime sample_chrono sample_Date_parse (Date (Num 0))
             (call_arguments \<lparr>name = JString ''chrono_parse'', arguments = None\<rparr> None)
           = Inl (Error ''text is required and must be a string'')"
    by (simp add: call_arguments_def empty_arguments_def parseDateTime_def)
  have b: "parseDateTime failing_chrono sample_Date_parse (Date (Num 0))
             (call_arguments \<lparr>name = JString ''chrono_parse'', arguments = Some sample_input\<rparr> None)
           = Inl NonError"
    by (simp add: call_arguments_def sample_input_def parseDateTime_def normalizeReference_def
        failing_chrono_def Let_def)
  have s1: "sublist ''required'' ''text is required and must be a string''"
    by (simp add: includes_str_sublist [symmetric])
  have s2: "\<not> sublist ''required'' ''Unknown error''" "\<not> sublist ''Invalid'' ''Unknown error''"
    by (simp_all add: includes_str_sublist [symmetric])
  show ?thesis
    using tools_call_error_code [of sample_request "\<lparr>name = JString ''chrono_parse'', arguments = None\<rparr>" sample_chrono
        sample_Date_parse "Date (Num 0)" None "Error ''text is required and must be a string''" "\<lambda>r. []"]
      tools_call_error_code [of "sample_request\<lparr>params := Some \<lparr>name = JString ''chrono_parse'', arguments = Some sample_input\<rparr>\<rparr>"
        "\<lparr>name = JString ''chrono_parse'', arguments = Some sample_input\<rparr>" failing_chrono
        sample_Date_parse "Date (Num 0)" None NonError "\<lambda>r. []"]
      a b s1 s2
    by (auto simp: sample_request_def error_message_def)
qed


lemma without_iso_convertResult:
  "without_iso (convertResult a r) = without_iso (convertResult b r)"
  by (cases "r_end r")
     (simp_all add: without_iso_def convertResult_def convertParsedComponent_def Let_def)

lemma parseDateTime_offset:
  assumes "same_candidates chrono Date_parse now input o1 o2"
  shows "response_without_iso (parseDateTime chrono Date_parse now (input\<lparr>timezone_offset := o1\<rparr>))
       = response_without_iso (parseDateTime chrono Date_parse now (input\<lparr>timezone_offset := o2\<rparr>))"
proof (cases "\<not> truthy (in_text input) \<or> typeof (in_text input) \<noteq> ''string''")
  case True
  then show ?thesis by (simp add: parseDateTime_def)
next
  case False
  note text_ok = False
  show ?thesis
  proof (cases "normalizeReference Date_parse now (reference input)")
    case (Inl e)
    with text_ok show ?thesis by (simp add: parseDateTime_def)
  next
    case (Inr refDate)
    let ?a = "timezoneOffset_of (input\<lparr>timezone_offset := o1\<rparr>)"
    let ?b = "timezoneOffset_of (input\<lparr>timezone_offset := o2\<rparr>)"
    from assms text_ok Inr
    have call: "chrono (string_value (in_text input)) \<lparr>instant = refDate, timezone = ?a\<rparr>
                  \<lparr>forwardDate = forwardDate_of input\<rparr>
              = chrono (string_value (in_text input)) \<lparr>instant = refDate, timezone = ?b\<rparr>
                  \<lparr>forwardDate = forwardDate_of input\<rparr>"
      by (simp add: same_candidates_def grammar_call_def forwardDate_of_def)
    have fwd: "forwardDate_of (input\<lparr>timezone_offset := z\<rparr>) = forwardDate_of input" for z
      by (simp add: forwardDate_of_def)
    show ?thesis
      using text_ok Inr
      by (simp add: parseDateTime_def response_without_iso_def Let_def call fwd
          without_iso_convertResult [of ?a _ ?b] split: sum.splits)
  qed
qed

lemma start_instants_without_iso:
  "response_without_iso p = response_without_iso q \<Longrightarrow> start_instants p = start_instants q"
proof -
  have u: "unix (res_start (without_iso r)) = unix (res_start r)" for r
    by (simp add: without_iso_def)
  have m: "map (\<lambda>r. unix (res_start r)) (map without_iso rs) = map (\<lambda>r. unix (res_start r)) rs" for rs
    by (induction rs) (simp_all add: u)
  have "start_instants x = map_sum id (map (\<lambda>r. unix (res_start r))) (response_without_iso x)" for x
    by (cases x) (simp_all add: start_instants_def response_without_iso_def u)
  then show "response_without_iso p = response_without_iso q \<Longrightarrow> start_instants p = start_instants q"
    by simp
qed

text \<open>
  Claim C1 as stated fails: \<^verbatim>\<open>parseDateTime\<close> hands \<^verbatim>\<open>timezone_offset\<close> to the
  grammar as the timezone of the reference, and a grammar that is a fixed function of its inputs
  may resolve the same text to another instant. Two requests that differ in the offset
  only (0 and 540), under the grammar that reads a wall-clock time:
\<close>

theorem unix_depends_on_timezone_offset:
  "start_instants (parseDateTime wall_clock_chrono sample_Date_parse (Date (Num 0))
       (sample_input\<lparr>timezone_offset := Some 0\<rparr>)) = Inr [Num 0] \<and>
   start_instants (parseDateTime wall_clock_chrono sample_Date_parse (Date (Num 0))
       (sample_input\<lparr>timezone_offset := Some 540\<rparr>)) = Inr [Num (- 32400000)] \<and>
   start_instants (parseDateTime wall_clock_chrono sample_Date_parse (Date (Num 0))
       (sample_input\<lparr>timezone_offset := Some 0\<rparr>))
   \<noteq> start_instants (parseDateTime wall_clock_chrono sample_Date_parse (Date (Num 0))
       (sample_input\<lparr>timezone_offset := Some 540\<rparr>))"
  by (simp add: start_instants_def parseDateTime_def sample_input_def normalizeReference_def
      wall_clock_chrono_def timezoneOffset_of_def forwardDate_of_def Let_def convertResult_def
      unix_convert)

text \<open>
  Claim C1, amended. The \<^verbatim>\<open>unix\<close> value and the detected offset of a projected component
  do not depend on the rendering offset. Hence, for two requests that differ in
  \<^verbatim>\<open>timezone_offset\<close> only, whenever the grammar returns the same candidates for the two
  (in the one call each request makes), the outcomes agree in everything except the
  \<^verbatim>\<open>iso\<close> strings and the summary built from them; in particular the \<^verbatim>\<open>unix\<close> values are
  pairwise equal.
\<close>

theorem unix_equal_for_equal_candidates:
  assumes "same_candidates chrono Date_parse now input o1 o2"
  shows "response_without_iso (parseDateTime chrono Date_parse now (input\<lparr>timezone_offset := o1\<rparr>))
       = response_without_iso (parseDateTime chrono Date_parse now (input\<lparr>timezone_offset := o2\<rparr>)) \<and>
     start_instants (parseDateTime chrono Date_parse now (input\<lparr>timezone_offset := o1\<rparr>))
       = start_instants (parseDateTime chrono Date_parse now (input\<lparr>timezone_offset := o2\<rparr>)) \<and>
     unix (convertParsedComponent c a) = unix (convertParsedComponent c b) \<and>
     timezoneOffset (convertParsedComponent c a) = timezoneOffset (convertParsedComponent c b)"
  using parseDateTime_offset [OF assms]
    start_instants_without_iso [OF parseDateTime_offset [OF assms]]
  by (simp add: unix_convert timezoneOffset_convert)

text \<open>
  The grammar of the example depends on the reference timezone (for another text), yet
  the request at hand gets the same candidates under the offsets 0 and 540.
\<close>

theorem unix_equal_for_equal_candidates_witness:
  "same_candidates picky_chrono sample_Date_parse (Date (Num 0)) sample_input None (Some 540) \<and>
   start_instants (parseDateTime picky_chrono sample_Date_parse (Date (Num 0))
       (sample_input\<lparr>timezone_offset := None\<rparr>))
   = start_instants (parseDateTime picky_chrono sample_Date_parse (Date (Num 0))
       (sample_input\<lparr>timezone_offset := Some 540\<rparr>)) \<and>
   start_instants (parseDateTime picky_chrono sample_Date_parse (Date (Num 0))
       (sample_input\<lparr>timezone_offset := Some 540\<rparr>)) = Inr [Num 0]"
proof -
  have same: "same_candidates picky_chrono sample_Date_parse (Date (Num 0)) sample_input
                None (Some 540)"
    by (simp add: same_candidates_def grammar_call_def sample_input_def normalizeReference_def
        picky_chrono_def sample_chrono_def)
  have inst: "start_instants (parseDateTime picky_chrono sample_Date_parse (Date (Num 0))
       (sample_input\<lparr>timezone_offset := Some 540\<rparr>)) = Inr [Num 0]"
    by (simp add: start_instants_def parseDateTime_def sample_input_def normalizeReference_def
        picky_chrono_def sample_chrono_def sample_components_def timezoneOffset_of_def
        forwardDate_of_def Let_def convertResult_def unix_convert)
  from unix_equal_for_equal_candidates [OF same] same inst show ?thesis by simp
qed

section \<open>The calendar\<close>

lemma div_step:
  fixes x k :: int
  assumes "0 < k"
  shows "(x + 1) div k = x div k + (if (x + 1) mod k = 0 then 1 else 0)"
proof (cases "x mod k + 1 = k")
  case True
  have "x + 1 = k * (x div k + 1) + 0"
    using True by (simp add: algebra_simps) (metis add.commute mult.commute div_mult_mod_eq add.assoc)
  then have "(x + 1) div k = x div k + 1" "(x + 1) mod k = 0"
    using assms by (metis int_div_pos_eq order_refl, metis int_mod_pos_eq order_refl)
  then show ?thesis by simp
next
  case False
  have r: "0 \<le> x mod k + 1" "x mod k + 1 < k"
    using assms False pos_mod_bound [of k x] pos_mod_sign [of k x] by linarith+
  have "x + 1 = k * (x div k) + (x mod k + 1)" by simp
  then have "(x + 1) div k = x div k" "(x + 1) mod k = x mod k + 1"
    using r by (metis int_div_pos_eq, metis int_mod_pos_eq)
  moreover have "x mod k + 1 \<noteq> 0" using assms pos_mod_sign [of k x] by linarith
  ultimately show ?thesis by simp
qed

lemma mod_shift:
  fixes y :: int
  shows "((y - 1969 + 1) mod 4 = 0) = (y mod 4 = 0)"
    and "((y - 1901 + 1) mod 100 = 0) = (y mod 100 = 0)"
    and "((y - 1601 + 1) mod 400 = 0) = (y mod 400 = 0)"
proof -
  have "(y + 4 * (- 492)) mod 4 = y mod 4" by (rule mod_mult_self2)
  then show "((y - 1969 + 1) mod 4 = 0) = (y mod 4 = 0)" by simp
  have "(y + 100 * (- 19)) mod 100 = y mod 100" by (rule mod_mult_self2)
  then show "((y - 1901 + 1) mod 100 = 0) = (y mod 100 = 0)" by simp
  have "(y + 400 * (- 4)) mod 400 = y mod 400" by (rule mod_mult_self2)
  then show "((y - 1601 + 1) mod 400 = 0) = (y mod 400 = 0)" by simp
qed

lemma mod_chain:
  fixes y :: int
  shows "y mod 400 = 0 \<Longrightarrow> y mod 100 = 0" and "y mod 100 = 0 \<Longrightarrow> y mod 4 = 0"
proof -
  have "y mod 400 mod 100 = y mod 100" by (rule mod_mod_cancel) simp
  then show "y mod 400 = 0 \<Longrightarrow> y mod 100 = 0" by simp
  have "y mod 100 mod 4 = y mod 4" by (rule mod_mod_cancel) simp
  then show "y mod 100 = 0 \<Longrightarrow> y mod 4 = 0" by simp
qed

lemma DayFromYear_step: "DayFromYear (y + 1) = DayFromYear y + DaysInYear y"
proof -
  have a: "(y + 1 - 1969) div 4 = (y - 1969) div 4 + (if y mod 4 = 0 then 1 else 0)"
    using div_step [of 4 "y - 1969"] mod_shift(1) [of y] by (simp add: algebra_simps)
  have b: "(y + 1 - 1901) div 100 = (y - 1901) div 100 + (if y mod 100 = 0 then 1 else 0)"
    using div_step [of 100 "y - 1901"] mod_shift(2) [of y] by (simp add: algebra_simps)
  have c: "(y + 1 - 1601) div 400 = (y - 1601) div 400 + (if y mod 400 = 0 then 1 else 0)"
    using div_step [of 400 "y - 1601"] mod_shift(3) [of y] by (simp add: algebra_simps)
  show ?thesis
    unfolding DayFromYear_def DaysInYear_def a b c
    using mod_chain [of y] by auto
qed

lemma div_bounds:
  "4 * (x div 4) \<le> x" "x \<le> 4 * (x div 4) + 3"
  "100 * (x div 100) \<le> x" "x \<le> 100 * (x div 100) + 99"
  "400 * (x div 400) \<le> x" "x \<le> 400 * (x div 400) + 399" for x :: int
  by simp_all

lemma DayFromYear_estimate_aux:
  fixes a b c y :: int
  assumes "4 * a \<le> y - 1969" "y - 1969 \<le> 4 * a + 3"
    "100 * b \<le> y - 1901" "y - 1901 \<le> 100 * b + 99"
    "400 * c \<le> y - 1601" "y - 1601 \<le> 400 * c + 399"
  shows "146097 * (y - 1970) - 506 \<le> 400 * (365 * (y - 1970) + a - b + c)"
    and "400 * (365 * (y - 1970) + a - b + c) \<le> 146097 * (y - 1970) + 589"
  using assms by (simp_all add: algebra_simps)

lemma DayFromYear_estimate:
  "146097 * (y - 1970) - 506 \<le> 400 * DayFromYear y"
  "400 * DayFromYear y \<le> 146097 * (y - 1970) + 589"
  unfolding DayFromYear_def
  by (rule DayFromYear_estimate_aux; rule div_bounds)+

lemma year_above:
  fixes D d y :: int
  assumes "146097 * (y + 2 - 1970) - 506 \<le> 400 * D"
    and "400 * d \<le> 146097 * (y - 1970) + 146096"
  shows "d < D"
  using assms by (simp add: algebra_simps)

lemma year_below:
  fixes D d y :: int
  assumes "400 * D \<le> 146097 * (y - 1 - 1970) + 589"
    and "146097 * (y - 1970) \<le> 400 * d"
  shows "D \<le> d"
  using assms by (simp add: algebra_simps)

lemma YearFromDay_bounds:
  "DayFromYear (YearFromDay d) \<le> d" "d < DayFromYear (YearFromDay d + 1)"
proof -
  define q where "q = (400 * d) div 146097"
  define y where "y = 1970 + q"
  have "146097 * q \<le> 400 * d" "400 * d \<le> 146097 * q + 146096"
    unfolding q_def by simp_all
  then have e: "146097 * (y - 1970) \<le> 400 * d" "400 * d \<le> 146097 * (y - 1970) + 146096"
    by (simp_all add: y_def)
  have yd: "YearFromDay d = (if DayFromYear (y + 1) \<le> d then y + 1
         else if d < DayFromYear y then y - 1 else y)"
    by (simp add: YearFromDay_def y_def q_def Let_def)
  have up: "d < DayFromYear (y + 2)"
    using DayFromYear_estimate(1) [of "y + 2"] e(2) by (rule year_above)
  have lo: "DayFromYear (y - 1) \<le> d"
    using DayFromYear_estimate(2) [of "y - 1"] e(1) by (rule year_below)
  show "DayFromYear (YearFromDay d) \<le> d"
    using lo by (simp add: yd)
  show "d < DayFromYear (YearFromDay d + 1)"
    using up by (auto simp: yd add.commute)
qed

text \<open>
  With \<open>YearFromDay_bounds\<close>, the next two lemmas say that \<open>YearFromDay d\<close> is the
  largest year whose first day is not after \<open>d\<close>: the definition of ECMA-262.
\<close>

lemma DayFromYear_mono: "y \<le> z \<Longrightarrow> DayFromYear y \<le> DayFromYear z"
proof -
  have "DayFromYear y \<le> DayFromYear (y + int n)" for n
  proof (induction n)
    case 0 show ?case by simp
  next
    case (Suc n)
    have "DayFromYear (y + int n + 1) = DayFromYear (y + int n) + DaysInYear (y + int n)"
      by (rule DayFromYear_step)
    moreover have "0 \<le> DaysInYear (y + int n)" by (simp add: DaysInYear_def)
    ultimately show ?case using Suc by (simp add: algebra_simps)
  qed
  from this [of "nat (z - y)"] show "y \<le> z \<Longrightarrow> DayFromYear y \<le> DayFromYear z" by simp
qed

lemma YearFromDay_greatest:
  assumes "DayFromYear y \<le> d"
  shows "y \<le> YearFromDay d"
proof (rule ccontr)
  assume "\<not> y \<le> YearFromDay d"
  then have "YearFromDay d + 1 \<le> y" by simp
  then have "DayFromYear (YearFromDay d + 1) \<le> DayFromYear y" by (rule DayFromYear_mono)
  with assms YearFromDay_bounds(2) [of d] show False by simp
qed

lemma DayWithinYear_bounds:
  "0 \<le> DayWithinYear t" "DayWithinYear t < DaysInYear (YearFromTime t)"
  using YearFromDay_bounds [of "Day t"] DayFromYear_step [of "YearFromDay (Day t)"]
  by (simp_all add: DayWithinYear_def YearFromTime_def)

section \<open>Decimal digits\<close>


lemma digit_char_cases:
  "digit_char n \<in> set ''0123456789''"
  "digit_value (digit_char n) = int (n mod 10)"
proof -
  define m where "m = n mod 10"
  have "m < 10" by (simp add: m_def)
  then have c: "m = 0 \<or> m = 1 \<or> m = 2 \<or> m = 3 \<or> m = 4 \<or> m = 5 \<or> m = 6 \<or> m = 7
      \<or> m = 8 \<or> m = 9"
    by arith
  from c show "digit_char n \<in> set ''0123456789''"
    unfolding digit_char_def m_def [symmetric] by auto
  from c show "digit_value (digit_char n) = int (n mod 10)"
    unfolding digit_char_def digit_value_def m_def [symmetric] by auto
qed

lemma is_digit_digit_char: "is_digit (digit_char n)"
  unfolding is_digit_def by (rule digit_char_cases)

lemma digit_char_mod: "digit_char (n mod 10) = digit_char n"
  by (simp add: digit_char_def)

lemma length_fixed_digits: "length (fixed_digits k n) = k"
  by (induction k arbitrary: n) simp_all

lemma all_digits_fixed_digits: "list_all is_digit (fixed_digits k n)"
  by (induction k arbitrary: n) (simp_all add: is_digit_digit_char)

lemma number_of_digits_snoc:
  "number_of_digits (ds @ [c]) = 10 * number_of_digits ds + digit_value c"
  by (simp add: number_of_digits_def)

lemma number_of_fixed_digits: "number_of_digits (fixed_digits k n) = int (n mod 10 ^ k)"
proof (induction k arbitrary: n)
  case 0
  show ?case by (simp add: number_of_digits_def)
next
  case (Suc k)
  have "n mod (10 * 10 ^ k) = 10 * (n div 10 mod 10 ^ k) + n mod 10"
    by (rule mod_mult2_eq)
  then show ?case
    by (simp add: number_of_digits_snoc Suc digit_char_cases(2))
qed

lemma take_number_fixed_digits:
  assumes "n < 10 ^ k"
  shows "take_number k (fixed_digits k n @ rest) = Some (int n, rest)"
  using assms
  by (simp add: take_number_def length_fixed_digits all_digits_fixed_digits number_of_fixed_digits)

lemma fixed_digits_zero: "fixed_digits k 0 = replicate k (CHR ''0'')"
  by (induction k) (simp_all add: digit_char_def replicate_append_same)

lemma length_string_of_nat_pos: "0 < length (string_of_nat n)"
  by (subst string_of_nat.simps) simp

lemma padStart_string_of_nat:
  assumes "n < 10 ^ k" and "0 < k"
  shows "padStart k (CHR ''0'') (string_of_nat n) = fixed_digits k n"
  using assms
proof (induction k arbitrary: n)
  case 0
  then show ?case by simp
next
  case (Suc k)
  show ?case
  proof (cases "n < 10")
    case True
    then have "n div 10 = 0" by simp
    with True show ?thesis
      by (simp add: padStart_def string_of_nat.simps [of n] fixed_digits_zero)
  next
    case False
    then have k: "0 < k" using Suc.prems(1) by (cases k) simp_all
    have d: "n div 10 < 10 ^ k" using Suc.prems(1) by (simp add: less_mult_imp_div_less)
    have s: "string_of_nat n = string_of_nat (n div 10) @ [digit_char n]"
      using False by (subst string_of_nat.simps) simp
    have "0 < length (string_of_nat (n div 10))" by (rule length_string_of_nat_pos)
    then have "Suc k - length (string_of_nat n) = k - length (string_of_nat (n div 10))"
      by (simp add: s)
    with Suc.IH [OF d k] show ?thesis
      by (simp add: padStart_def s)
  qed
qed

lemma string_of_nat_long:
  assumes "10 ^ k \<le> n"
  shows "k < length (string_of_nat n)"
  using assms
proof (induction k arbitrary: n)
  case 0
  show ?case by (rule length_string_of_nat_pos)
next
  case (Suc k)
  have "(10::nat) \<le> 10 ^ Suc k" by simp
  with Suc.prems have n10: "\<not> n < 10" by linarith
  have "10 ^ k \<le> n div 10" using Suc.prems by (simp add: less_eq_div_iff_mult_less_eq mult.commute)
  from Suc.IH [OF this] n10 show ?case
    by (subst string_of_nat.simps) simp
qed

section \<open>Fields of a time value\<close>

lemma time_within_day:
  "HourFromTime t * 3600000 + MinFromTime t * 60000 + SecFromTime t * 1000 + msFromTime t
     = t mod msPerDay"
proof -
  define u where "u = t div 1000"
  define v where "v = u div 60"
  define w where "w = v div 60"
  have v: "t div 60000 = v"
    unfolding v_def u_def using zdiv_zmult2_eq [of 60 t 1000] by simp
  have w: "t div 3600000 = w"
    unfolding w_def v [symmetric] using zdiv_zmult2_eq [of 60 t 60000] by simp
  have a: "t mod 86400000 = 1000 * (u mod 86400) + t mod 1000"
    unfolding u_def using zmod_zmult2_eq [of 86400 t 1000] by simp
  have b: "u mod 86400 = 60 * (v mod 1440) + u mod 60"
    unfolding v_def using zmod_zmult2_eq [of 1440 u 60] by simp
  have c: "v mod 1440 = 60 * (w mod 24) + v mod 60"
    unfolding w_def using zmod_zmult2_eq [of 24 v 60] by simp
  have "HourFromTime t = w mod 24" "MinFromTime t = v mod 60" "SecFromTime t = u mod 60"
    "msFromTime t = t mod 1000"
    by (simp_all add: HourFromTime_def MinFromTime_def SecFromTime_def msFromTime_def v w u_def)
  then show ?thesis
    unfolding msPerDay_def a b c by simp
qed

lemma day_and_time: "Day t * msPerDay + t mod msPerDay = t"
  by (simp add: Day_def)

lemma time_field_bounds:
  "0 \<le> HourFromTime t" "HourFromTime t < 24"
  "0 \<le> MinFromTime t" "MinFromTime t < 60"
  "0 \<le> SecFromTime t" "SecFromTime t < 60"
  "0 \<le> msFromTime t" "msFromTime t < 1000"
  by (simp_all add: HourFromTime_def MinFromTime_def SecFromTime_def msFromTime_def)

lemma month_cases:
  assumes "0 \<le> d" and "d < 365 + l" and "l = 0 \<or> l = 1"
  obtains m where "0 \<le> m" "m \<le> 11" "MonthFromDay l d = m" "monthStart l m \<le> d"
    "d < monthStart l m + DaysInMonth l (m + 1)"
proof -
  consider "d < 31" | "31 \<le> d" "d < 59 + l" | "59 + l \<le> d" "d < 90 + l"
    | "90 + l \<le> d" "d < 120 + l" | "120 + l \<le> d" "d < 151 + l" | "151 + l \<le> d" "d < 181 + l"
    | "181 + l \<le> d" "d < 212 + l" | "212 + l \<le> d" "d < 243 + l" | "243 + l \<le> d" "d < 273 + l"
    | "273 + l \<le> d" "d < 304 + l" | "304 + l \<le> d" "d < 334 + l" | "334 + l \<le> d"
    by linarith
  then show ?thesis
  proof cases
    case 1 then show ?thesis using assms that [of 0] by (auto simp: MonthFromDay_def monthStart_def DaysInMonth_def)
  next
    case 2 then show ?thesis using assms that [of 1] by (auto simp: MonthFromDay_def monthStart_def DaysInMonth_def)
  next
    case 3 then show ?thesis using assms that [of 2] by (auto simp: MonthFromDay_def monthStart_def DaysInMonth_def)
  next
    case 4 then show ?thesis using assms that [of 3] by (auto simp: MonthFromDay_def monthStart_def DaysInMonth_def)
  next
    case 5 then show ?thesis using assms that [of 4] by (auto simp: MonthFromDay_def monthStart_def DaysInMonth_def)
  next
    case 6 then show ?thesis using assms that [of 5] by (auto simp: MonthFromDay_def monthStart_def DaysInMonth_def)
  next
    case 7 then show ?thesis using assms that [of 6] by (auto simp: MonthFromDay_def monthStart_def DaysInMonth_def)
  next
    case 8 then show ?thesis using assms that [of 7] by (auto simp: MonthFromDay_def monthStart_def DaysInMonth_def)
  next
    case 9 then show ?thesis using assms that [of 8] by (auto simp: MonthFromDay_def monthStart_def DaysInMonth_def)
  next
    case 10 then show ?thesis using assms that [of 9] by (auto simp: MonthFromDay_def monthStart_def DaysInMonth_def)
  next
    case 11 then show ?thesis using assms that [of 10] by (auto simp: MonthFromDay_def monthStart_def DaysInMonth_def)
  next
    case 12 then show ?thesis using assms that [of 11] by (auto simp: MonthFromDay_def monthStart_def DaysInMonth_def)
  qed
qed

lemma month_of_day:
  assumes "l = 0 \<or> l = 1" and "0 \<le> d" and "d < 365 + l"
  shows "0 \<le> MonthFromDay l d \<and> MonthFromDay l d \<le> 11 \<and>
         1 \<le> d - monthStart l (MonthFromDay l d) + 1 \<and>
         d - monthStart l (MonthFromDay l d) + 1 \<le> DaysInMonth l (MonthFromDay l d + 1)"
proof -
  from assms(2) assms(3) assms(1) obtain m where
    "0 \<le> m" "m \<le> 11" "MonthFromDay l d = m" "monthStart l m \<le> d"
    "d < monthStart l m + DaysInMonth l (m + 1)"
    by (rule month_cases)
  then show ?thesis by simp
qed

lemma InLeapYear_flag: "InLeapYear t = leap_flag (YearFromTime t)"
  by (simp add: InLeapYear_def leap_flag_def)

lemma leap_flag_cases: "leap_flag y = 0 \<or> leap_flag y = 1"
  by (simp add: leap_flag_def)

lemma DaysInYear_flag: "DaysInYear y = 365 + leap_flag y"
  by (simp add: leap_flag_def DaysInYear_def)

lemma date_field_bounds:
  "0 \<le> MonthFromTime t" "MonthFromTime t \<le> 11"
  "1 \<le> DateFromTime t"
  "DateFromTime t \<le> DaysInMonth (leap_flag (YearFromTime t)) (MonthFromTime t + 1)"
  using month_of_day [OF leap_flag_cases [of "YearFromTime t"], of "DayWithinYear t"]
    DayWithinYear_bounds [of t]
  by (simp_all add: MonthFromTime_def DateFromTime_def InLeapYear_flag DaysInYear_flag)

lemma DaysInMonth_le: "l = 0 \<or> l = 1 \<Longrightarrow> DaysInMonth l m \<le> 31"
  by (auto simp: DaysInMonth_def)

lemma MakeDay_fields: "MakeDay (YearFromTime t) (MonthFromTime t) (DateFromTime t) = Day t"
  by (simp add: MakeDay_def DateFromTime_def InLeapYear_flag DayWithinYear_def)

lemma MakeDate_fields:
  "MakeDate (MakeDay (YearFromTime t) (MonthFromTime t) (DateFromTime t))
     (MakeTime (HourFromTime t) (MinFromTime t) (SecFromTime t) (msFromTime t)) = t"
  unfolding MakeDay_fields MakeDate_def MakeTime_def time_within_day by (rule day_and_time)

section \<open>Padding and reading of fields\<close>

lemma pad2:
  assumes "0 \<le> n" and "n < 100"
  shows "padStart 2 (CHR ''0'') (String_of (Num n)) = fixed_digits 2 (nat n)"
  using assms padStart_string_of_nat [of "nat n" 2] by simp

lemma pad3:
  assumes "0 \<le> n" and "n < 1000"
  shows "padStart 3 (CHR ''0'') (String_of (Num n)) = fixed_digits 3 (nat n)"
  using assms padStart_string_of_nat [of "nat n" 3] by simp

lemma year4:
  assumes "1000 \<le> n" and "n \<le> 9999"
  shows "String_of (Num n) = fixed_digits 4 (nat n)"
proof -
  have "3 < length (string_of_nat (nat n))"
    using assms string_of_nat_long [of 3 "nat n"] by simp
  then have "padStart 4 (CHR ''0'') (string_of_nat (nat n)) = string_of_nat (nat n)"
    by (simp add: padStart_def)
  with assms padStart_string_of_nat [of "nat n" 4] show ?thesis by simp
qed

lemma take2:
  assumes "0 \<le> n" and "n < 100"
  shows "take_number 2 (fixed_digits 2 (nat n) @ rest) = Some (n, rest)"
  using assms take_number_fixed_digits [of "nat n" 2 rest] by simp

lemma take3:
  assumes "0 \<le> n" and "n < 1000"
  shows "take_number 3 (fixed_digits 3 (nat n) @ rest) = Some (n, rest)"
  using assms take_number_fixed_digits [of "nat n" 3 rest] by simp

lemma take4:
  assumes "0 \<le> n" and "n < 10000"
  shows "take_number 4 (fixed_digits 4 (nat n) @ rest) = Some (n, rest)"
  using assms take_number_fixed_digits [of "nat n" 4 rest] by simp

lemma fixed_digits_unfold:
  "fixed_digits 2 n = [digit_char (n div 10), digit_char n]"
  "fixed_digits 3 n = [digit_char (n div 10 div 10), digit_char (n div 10), digit_char n]"
  "fixed_digits 4 n = [digit_char (n div 10 div 10 div 10), digit_char (n div 10 div 10),
                       digit_char (n div 10), digit_char n]"
proof -
  have n: "(2::nat) = Suc (Suc 0)" "(3::nat) = Suc (Suc (Suc 0))"
    "(4::nat) = Suc (Suc (Suc (Suc 0)))"
    by simp_all
  show "fixed_digits 2 n = [digit_char (n div 10), digit_char n]"
    unfolding n(1) by simp
  show "fixed_digits 3 n = [digit_char (n div 10 div 10), digit_char (n div 10), digit_char n]"
    unfolding n(2) by simp
  show "fixed_digits 4 n = [digit_char (n div 10 div 10 div 10), digit_char (n div 10 div 10),
                       digit_char (n div 10), digit_char n]"
    unfolding n(3) by simp
qed

lemma DayFromYear_1000: "DayFromYear 1000 = - 354285"
  by (simp add: DayFromYear_def)

lemma DayFromYear_10000: "DayFromYear 10000 = 2932897"
  by (simp add: DayFromYear_def)

lemma year_range_time:
  assumes "1000 \<le> YearFromTime t" and "YearFromTime t \<le> 9999"
  shows "- 30610224000000 \<le> t" and "t < 253402300800000"
proof -
  have "DayFromYear 1000 \<le> DayFromYear (YearFromTime t)"
    using assms(1) by (rule DayFromYear_mono)
  then have lo: "- 354285 \<le> Day t"
    using YearFromDay_bounds(1) [of "Day t"] by (simp add: YearFromTime_def DayFromYear_1000)
  have "DayFromYear (YearFromTime t + 1) \<le> DayFromYear 10000"
    using assms(2) by (intro DayFromYear_mono) simp
  then have hi: "Day t < 2932897"
    using YearFromDay_bounds(2) [of "Day t"] by (simp add: YearFromTime_def DayFromYear_10000)
  have m: "0 \<le> t mod msPerDay" "t mod msPerDay < msPerDay"
    by (simp_all add: msPerDay_def)
  have t: "t = Day t * 86400000 + t mod msPerDay"
    using day_and_time [of t] by (simp add: msPerDay_def)
  show "- 30610224000000 \<le> t"
    using lo m(1) by (subst t) simp
  show "t < 253402300800000"
    using hi m(2) by (subst t) (simp add: msPerDay_def)
qed

section \<open>Rendering\<close>

lemma toISOWithOffset_rendered:
  assumes "1000 \<le> YearFromTime (t + off * 60000)" and "YearFromTime (t + off * 60000) \<le> 9999"
    and "\<bar>off\<bar> < 6000"
  shows "toISOWithOffset (Date (Num t)) off = rendered (t + off * 60000) off"
proof -
  define u where "u = t + off * 60000"
  have yr: "1000 \<le> YearFromTime u" "YearFromTime u \<le> 9999"
    using assms(1,2) by (simp_all add: u_def)
  have "\<bar>u\<bar> \<le> maxTimeValue"
    using year_range_time [OF yr] by (simp add: maxTimeValue_def)
  then have local: "new_Date (num_add (getTime (Date (Num t))) (Num (off * 60 * 1000))) = Date (Num u)"
    by (simp add: u_def)
  have y: "String_of (Num (YearFromTime u)) = fixed_digits 4 (nat (YearFromTime u))"
    using yr by (rule year4)
  have mo: "padStart 2 (CHR ''0'') (String_of (Num (MonthFromTime u + 1)))
              = fixed_digits 2 (nat (MonthFromTime u + 1))"
    using date_field_bounds(1,2) [of u] by (intro pad2) simp_all
  have d: "padStart 2 (CHR ''0'') (String_of (Num (DateFromTime u)))
              = fixed_digits 2 (nat (DateFromTime u))"
    using date_field_bounds(3,4) [of u] DaysInMonth_le [OF leap_flag_cases, of "YearFromTime u" "MonthFromTime u + 1"]
    by (intro pad2) simp_all
  have h: "padStart 2 (CHR ''0'') (String_of (Num (HourFromTime u)))
              = fixed_digits 2 (nat (HourFromTime u))"
    using time_field_bounds(1,2) [of u] by (intro pad2) simp_all
  have mi: "padStart 2 (CHR ''0'') (String_of (Num (MinFromTime u)))
              = fixed_digits 2 (nat (MinFromTime u))"
    using time_field_bounds(3,4) [of u] by (intro pad2) simp_all
  have s: "padStart 2 (CHR ''0'') (String_of (Num (SecFromTime u)))
              = fixed_digits 2 (nat (SecFromTime u))"
    using time_field_bounds(5,6) [of u] by (intro pad2) simp_all
  have ms: "padStart 3 (CHR ''0'') (String_of (Num (msFromTime u)))
              = fixed_digits 3 (nat (msFromTime u))"
    using time_field_bounds(7,8) [of u] by (intro pad3) simp_all
  have oh: "padStart 2 (CHR ''0'') (String_of (Num (\<bar>off\<bar> div 60)))
              = fixed_digits 2 (nat (\<bar>off\<bar> div 60))"
    using assms(3) by (intro pad2) simp_all
  have om: "padStart 2 (CHR ''0'') (String_of (Num (\<bar>off\<bar> mod 60)))
              = fixed_digits 2 (nat (\<bar>off\<bar> mod 60))"
    by (intro pad2) simp_all
  show ?thesis
    unfolding toISOWithOffset_def Let_def local u_def [symmetric] rendered_def
    by (simp only: getUTCFullYear.simps getUTCMonth.simps getUTCDate.simps getUTCHours.simps
        getUTCMinutes.simps getUTCSeconds.simps getUTCMilliseconds.simps num_add.simps
        y mo d h mi s ms oh om)
qed

lemma parse_fields_rendered:
  assumes "1000 \<le> YearFromTime u" and "YearFromTime u \<le> 9999" and "\<bar>off\<bar> < 6000"
  shows "parse_fields (rendered u off) =
           Some (YearFromTime u, MonthFromTime u + 1, DateFromTime u, HourFromTime u,
                 MinFromTime u, SecFromTime u, msFromTime u,
                 (if 0 \<le> off then 1 else - 1), \<bar>off\<bar> div 60, \<bar>off\<bar> mod 60)"
proof -
  have y: "take_number 4 (fixed_digits 4 (nat (YearFromTime u)) @ r) = Some (YearFromTime u, r)" for r
    using assms(1,2) by (intro take4) simp_all
  have mo: "take_number 2 (fixed_digits 2 (nat (MonthFromTime u + 1)) @ r) = Some (MonthFromTime u + 1, r)" for r
    using date_field_bounds(1,2) [of u] by (intro take2) simp_all
  have d: "take_number 2 (fixed_digits 2 (nat (DateFromTime u)) @ r) = Some (DateFromTime u, r)" for r
    using date_field_bounds(3,4) [of u] DaysInMonth_le [OF leap_flag_cases, of "YearFromTime u" "MonthFromTime u + 1"]
    by (intro take2) simp_all
  have h: "take_number 2 (fixed_digits 2 (nat (HourFromTime u)) @ r) = Some (HourFromTime u, r)" for r
    using time_field_bounds(1,2) [of u] by (intro take2) simp_all
  have mi: "take_number 2 (fixed_digits 2 (nat (MinFromTime u)) @ r) = Some (MinFromTime u, r)" for r
    using time_field_bounds(3,4) [of u] by (intro take2) simp_all
  have s: "take_number 2 (fixed_digits 2 (nat (SecFromTime u)) @ r) = Some (SecFromTime u, r)" for r
    using time_field_bounds(5,6) [of u] by (intro take2) simp_all
  have ms: "take_number 3 (fixed_digits 3 (nat (msFromTime u)) @ r) = Some (msFromTime u, r)" for r
    using time_field_bounds(7,8) [of u] by (intro take3) simp_all
  define a where "a = \<bar>off\<bar>"
  have a: "0 \<le> a" "a < 6000" using assms(3) by (simp_all add: a_def)
  have oh: "take_number 2 (fixed_digits 2 (nat (a div 60)) @ r) = Some (a div 60, r)" for r
    using a by (intro take2) simp_all
  have om: "take_number 2 (fixed_digits 2 (nat (a mod 60))) = Some (a mod 60, [])"
    using take2 [of "a mod 60" "[]"] by simp
  show ?thesis
    unfolding parse_fields_def rendered_def a_def [symmetric]
    by (simp add: y mo d h mi s ms oh om take_char_def take_sign_def)
qed

lemma iso_shape_rendered: "iso_shape (rendered u off)"
  unfolding iso_shape_def rendered_def fixed_digits_unfold
  by (simp add: is_digit_digit_char)

lemma sign_rendered:
  "rendered u off ! 23 = (if 0 \<le> off then CHR ''+'' else CHR ''-'')"
  "drop 23 (rendered u off) = (if 0 \<le> off then ''+'' else ''-'') @ fixed_digits 2 (nat (\<bar>off\<bar> div 60))
       @ '':'' @ fixed_digits 2 (nat (\<bar>off\<bar> mod 60))"
  "length (rendered u off) = 29"
  unfolding rendered_def fixed_digits_unfold
  by simp_all

text \<open>
  Claim C3, amended. For an instant \<open>t\<close> and an offset of less than 6000 minutes in
  absolute value such that the shifted instant \<open>t + 60000 * off\<close> falls in the years
  1000 to 9999, the string has the shape \<^verbatim>\<open>YYYY-MM-DDTHH:MM:SS.mmm\<close> followed by \<^verbatim>\<open>+HH:MM\<close>
  or \<^verbatim>\<open>-HH:MM\<close> (never \<^verbatim>\<open>Z\<close>), every field padded with zeros and the milliseconds shown;
  its fields, read as numbers, are the UTC year, month, day, hour, minute, second and
  millisecond of the shifted instant (no zone rules), and the suffix is the sign, \<^verbatim>\<open>+\<close>
  for zero and positive offsets, with the hours and the minutes of the offset, so that
  330 gives \<^verbatim>\<open>+05:30\<close> and 570 gives \<^verbatim>\<open>+09:30\<close>.
\<close>

theorem toISOWithOffset_shape:
  assumes "1000 \<le> YearFromTime (t + off * 60000)"
    and "YearFromTime (t + off * 60000) \<le> 9999"
    and "\<bar>off\<bar> < 6000"
  shows "iso_shape (toISOWithOffset (Date (Num t)) off) \<and>
         parse_fields (toISOWithOffset (Date (Num t)) off) =
           Some (YearFromTime (t + off * 60000), MonthFromTime (t + off * 60000) + 1,
                 DateFromTime (t + off * 60000), HourFromTime (t + off * 60000),
                 MinFromTime (t + off * 60000), SecFromTime (t + off * 60000),
                 msFromTime (t + off * 60000),
                 (if 0 \<le> off then 1 else - 1), \<bar>off\<bar> div 60, \<bar>off\<bar> mod 60) \<and>
         drop 23 (toISOWithOffset (Date (Num t)) off) =
           (if 0 \<le> off then ''+'' else ''-'') @ fixed_digits 2 (nat (\<bar>off\<bar> div 60))
             @ '':'' @ fixed_digits 2 (nat (\<bar>off\<bar> mod 60))"
  unfolding toISOWithOffset_rendered [OF assms]
  using parse_fields_rendered [OF assms] iso_shape_rendered sign_rendered(2)
  by simp

lemma sample_years:
  "YearFromTime 19800000 = 1970" "YearFromTime 34200000 = 1970"
  "YearFromTime 1759550400123 = 2025"
  by (simp_all add: YearFromTime_def YearFromDay_def Day_def msPerDay_def DayFromYear_def)

theorem toISOWithOffset_shape_witness:
  "drop 23 (toISOWithOffset (Date (Num 0)) 330) = ''+05:30'' \<and>
   drop 23 (toISOWithOffset (Date (Num 0)) 570) = ''+09:30'' \<and>
   iso_shape (toISOWithOffset (Date (Num 1759568400123)) (- 300)) \<and>
   drop 23 (toISOWithOffset (Date (Num 1759568400123)) (- 300)) = ''-05:00''"
  using toISOWithOffset_shape [of 0 330] toISOWithOffset_shape [of 0 570] toISOWithOffset_shape [of 1759568400123 "- 300"]
  by (simp add: sample_years fixed_digits_unfold digit_char_def)

text \<open>Evaluation of the rendering on explicit instants.\<close>

lemma string_of_nat_numeral:
  "string_of_nat (numeral k) =
     (if (numeral k :: nat) < 10 then [digit_char (numeral k)]
      else string_of_nat (numeral k div 10) @ [digit_char (numeral k)])"
  by (rule string_of_nat.simps)

lemma string_of_nat_small: "string_of_nat 0 = ''0''" "string_of_nat 1 = ''1''"
  "string_of_nat (Suc 0) = ''1''"
  by (simp_all add: string_of_nat.simps digit_char_def)

lemma replicate_small: "replicate 2 c = [c, c]" "replicate 1 c = [c]"
  by (simp_all add: numeral_2_eq_2)

lemmas render_simps =
  toISOWithOffset_def Let_def maxTimeValue_def YearFromTime_def YearFromDay_def
  Day_def msPerDay_def DayFromYear_def MonthFromTime_def MonthFromDay_def DateFromTime_def
  monthStart_def DayWithinYear_def InLeapYear_def DaysInYear_def HourFromTime_def
  MinFromTime_def SecFromTime_def msFromTime_def padStart_def digit_char_def
  string_of_nat_numeral string_of_nat_small replicate_small

lemma rendered_examples:
  "toISOWithOffset (Date (Num 0)) 6000 = ''1970-01-05T04:00:00.000+100:00''"
  "toISOWithOffset (Date (Num 253402300800000)) 0 = ''10000-01-01T00:00:00.000+00:00''"
  "toISOWithOffset (Date (Num 8640000000000000)) 1 = ''NaN-NaN-NaNTNaN:NaN:NaN.NaN+00:01''"
  by (simp_all add: render_simps)

text \<open>
  Claim C3 as stated fails for an offset that the two-digit hour field cannot hold
  (offsets are not bounded, and \<^verbatim>\<open>padStart\<close> does not shorten), and for a shifted instant
  in a year of five digits.
\<close>

theorem offset_suffix_not_two_digits:
  "toISOWithOffset (Date (Num 0)) 6000 = ''1970-01-05T04:00:00.000+100:00'' \<and>
   \<not> iso_shape (toISOWithOffset (Date (Num 0)) 6000) \<and>
   toISOWithOffset (Date (Num 253402300800000)) 0 = ''10000-01-01T00:00:00.000+00:00'' \<and>
   \<not> iso_shape (toISOWithOffset (Date (Num 253402300800000)) 0)"
  by (simp add: rendered_examples iso_shape_def is_digit_def)

text \<open>
  Claim C2, amended. For an instant \<open>t\<close> and an offset of less than 1440 minutes in
  absolute value such that the shifted instant falls in the years 1000 to 9999,
  rendering \<open>t\<close> at the offset and reading the string back by the date-time string
  format gives \<open>t\<close> again.
\<close>

theorem render_parse_round_trip:
  assumes "1000 \<le> YearFromTime (t + off * 60000)"
    and "YearFromTime (t + off * 60000) \<le> 9999"
    and "\<bar>off\<bar> < 1440"
  shows "Date_parse_format (toISOWithOffset (Date (Num t)) off) = Num t"
proof -
  define u where "u = t + off * 60000"
  define a where "a = \<bar>off\<bar>"
  have yr: "1000 \<le> YearFromTime u" "YearFromTime u \<le> 9999"
    using assms(1,2) by (simp_all add: u_def)
  have off: "\<bar>off\<bar> < 6000" using assms(3) by simp
  have a: "0 \<le> a" "a < 1440" using assms(3) by (simp_all add: a_def)
  have iso: "toISOWithOffset (Date (Num t)) off = rendered u off"
    unfolding u_def using assms(1,2) off by (rule toISOWithOffset_rendered)
  let ?f = "(YearFromTime u, MonthFromTime u + 1, DateFromTime u, HourFromTime u,
             MinFromTime u, SecFromTime u, msFromTime u,
             (if 0 \<le> off then 1 else - 1), a div 60, a mod 60)"
  have fields: "parse_fields (rendered u off) = Some ?f"
    unfolding a_def using yr off by (rule parse_fields_rendered)
  have "a div 60 \<le> 23" using a by simp
  moreover have "a mod 60 \<le> 59" using pos_mod_bound [of 60 a] by simp
  ultimately have range: "fields_in_range ?f"
    using date_field_bounds [of u] time_field_bounds [of u]
    by (simp add: fields_in_range_def)
  have "(if 0 \<le> off then 1 else - 1) * (a div 60 * 60 + a mod 60) = off"
    by (simp add: a_def)
  then have "(if 0 \<le> off then 1 else - 1) * (a div 60 * 60 + a mod 60) * 60000 = off * 60000"
    by (simp only:)
  then have tv: "time_value_of_fields ?f = t"
    unfolding time_value_of_fields_def prod.case
    using MakeDate_fields [of u] by (simp add: u_def)
  have "\<bar>t\<bar> \<le> maxTimeValue"
    using year_range_time [OF yr] assms(3) by (simp add: maxTimeValue_def u_def)
  then show ?thesis
    by (simp add: Date_parse_format_def iso fields range tv del: time_value_of_fields_def)
qed

theorem render_parse_round_trip_witness:
  "Date_parse_format (toISOWithOffset (Date (Num 0)) 330) = Num 0 \<and>
   Date_parse_format (toISOWithOffset (Date (Num 1759568400123)) (- 300)) = Num 1759568400123"
  using render_parse_round_trip [of 0 330] render_parse_round_trip [of 1759568400123 "- 300"]
  by (simp add: sample_years)

text \<open>
  Claim C2 as stated fails: with an offset of 6000 minutes the suffix is
  \<^verbatim>\<open>+100:00\<close>, which is not of the format, and with the last instant of the time range and an
  offset of one minute the shifted instant leaves the range, the local \<^verbatim>\<open>Date\<close> is
  invalid and every field is rendered as \<^verbatim>\<open>NaN\<close>.
\<close>

theorem round_trip_fails_outside_format:
  "Date_parse_format (toISOWithOffset (Date (Num 0)) 6000) = NaN \<and>
   Date_parse_format (toISOWithOffset (Date (Num 0)) 6000) \<noteq> getTime (Date (Num 0)) \<and>
   toISOWithOffset (Date (Num 8640000000000000)) 1 = ''NaN-NaN-NaNTNaN:NaN:NaN.NaN+00:01'' \<and>
   Date_parse_format (toISOWithOffset (Date (Num 8640000000000000)) 1)
     \<noteq> getTime (Date (Num 8640000000000000))"
  by (simp add: rendered_examples Date_parse_format_def parse_fields_def take_number_def
      take_char_def take_sign_def is_digit_def number_of_digits_def digit_value_def)

end
